theory Spec2Isabelle
  imports Main
begin

section \<open>Errors (logger.go)\<close>

text \<open>
  \<^verbatim>\<open>ErrorCode\<close> and \<^verbatim>\<open>AppError\<close> of logger.go. The message text plays no part in the
  control flow and is left out; the cause is kept. \<open>ExternalError\<close> stands for an error
  value produced by a library (os, net/http, encoding/json).
\<close>

datatype ErrorCode =
    ErrCodeConfigLoad | ErrCodeConfigValidate | ErrCodeImageParse | ErrCodeImageDownload
  | ErrCodeFileOperation | ErrCodeNetworkError | ErrCodeAuthError | ErrCodeChecksumError
  | ErrCodeTarAssembly | ErrCodeConfigError

datatype error = ExternalError | AppError ErrorCode "error option"

definition WrapError :: "ErrorCode \<Rightarrow> error option \<Rightarrow> error" where
  "WrapError code err = AppError code err"

fun Code :: "error \<Rightarrow> ErrorCode option" where
  "Code ExternalError = None"
| "Code (AppError c _) = Some c"

text \<open>
  What a call has produced once the replies of the network that the model was given are
  used up: \<open>Pending\<close> when the call has not returned yet (it is about to send another
  request), \<open>Failed e\<close> for a non-nil error, \<open>Done v\<close> for a nil error.
\<close>

datatype 'a outcome = Pending | Failed error | Done 'a

section \<open>The world: files, HTTP replies, observable events\<close>

type_synonym bytes = string
type_synonym filesystem = "string \<rightharpoonup> bytes"

text \<open>
  The program is sequential, so the network is a script: the k-th request the program
  sends is answered by the k-th reply. A reply is a transport error or a response with
  its status code, its Www-Authenticate header, the bytes of the body that arrive, and
  whether reading the body ends in an error after those bytes.

  File operations fail only for a reason visible in the map (the file is missing).
\<close>

datatype reply = NetError | Response nat string bytes bool

datatype event =
    Probe string
  | TokenGet string
  | BlobGet string string "int option"
  | Sleep nat
  | Removed string
  | Truncated string

text \<open>
  \<open>BlobGet url token range\<close> is the GET of downloadLayerWithRetry: the Authorization
  header is \<open>Bearer token\<close> when the token is not empty, and \<open>range = Some n\<close> is the header
  \<^verbatim>\<open>Range: bytes=n-\<close>. \<open>Sleep s\<close> is \<^verbatim>\<open>time.Sleep\<close> of s seconds.
\<close>

fun isBlobGet :: "event \<Rightarrow> bool" where
  "isBlobGet (BlobGet _ _ _) = True"
| "isBlobGet _ = False"

fun isUnrangedGet :: "event \<Rightarrow> bool" where
  "isUnrangedGet (BlobGet _ _ None) = True"
| "isUnrangedGet _ = False"

fun isSleep :: "event \<Rightarrow> bool" where
  "isSleep (Sleep _) = True"
| "isSleep _ = False"

text \<open>
  A parsed image reference (name.Reference), as far as the source reads it: the
  registry and the repository of its context. name.ParseReference accepts a registry
  only when it is a valid host name, so the URLs that the program builds from a
  reference (the probe, the blobs) are URLs that the HTTP client sends.
\<close>

record reference =
  RegistryStr :: string
  RepositoryStr :: string

text \<open>
  One entry of manifest.json, and the repositories object as an association list. An
  entry read back from manifest.json has a string as Config and a list of strings as
  Layers, as every entry that the program writes has, so the type assertions of
  assembleImageTar succeed; a nil slice is the empty list.
\<close>

record manifest =
  Config :: string
  RepoTags :: "string list"
  Layers :: "string list"

type_synonym repositories = "(string \<times> (string \<times> string) list) list"

text \<open>
  The library functions that the source calls, taken as parameters.
  \<open>sha256_hex\<close> is crypto/sha256 followed by hex.EncodeToString; \<open>decode_token\<close> is the JSON
  decoding of the token response into its \<^verbatim>\<open>token\<close> field; \<open>ParseReference\<close> is
  name.ParseReference; the others are json.Marshal and json.Unmarshal at the types the
  source uses them (\<open>None\<close> is an error). \<open>accepts_url\<close> says whether net/http finds
  nothing wrong with a URL whose scheme is http or https (it has a host, and url.Parse
  reads what follows the scheme without error).
\<close>

record lib =
  sha256_hex :: "bytes \<Rightarrow> string"
  decode_token :: "bytes \<Rightarrow> string option"
  ParseReference :: "string \<Rightarrow> reference option"
  marshal_config :: "string \<Rightarrow> bytes option"
  marshal_manifest :: "manifest list \<Rightarrow> bytes option"
  marshal_repositories :: "repositories \<Rightarrow> bytes option"
  unmarshal_manifest :: "bytes \<Rightarrow> manifest list option"
  accepts_url :: "string \<Rightarrow> bool"

section \<open>Strings (the functions of package strings that the source uses)\<close>

fun cutAt :: "char \<Rightarrow> string \<Rightarrow> (string \<times> string) option" where
  "cutAt c [] = None"
| "cutAt c (x # xs) =
     (if x = c then Some ([], xs)
      else (case cutAt c xs of None \<Rightarrow> None | Some (a, b) \<Rightarrow> Some (x # a, b)))"

text \<open>\<^verbatim>\<open>strings.SplitN(s, sep, 2)\<close> for a one-byte separator.\<close>

definition SplitN2 :: "string \<Rightarrow> char \<Rightarrow> string list" where
  "SplitN2 s c = (case cutAt c s of None \<Rightarrow> [s] | Some (a, b) \<Rightarrow> [a, b])"

text \<open>\<^verbatim>\<open>strings.Split(s, sep)\<close> for a one-byte separator.\<close>

fun Split :: "string \<Rightarrow> char \<Rightarrow> string list" where
  "Split [] c = [[]]"
| "Split (x # xs) c =
     (if x = c then [] # Split xs c
      else (case Split xs c of [] \<Rightarrow> [[x]] | p # ps \<Rightarrow> (x # p) # ps))"

text \<open>\<^verbatim>\<open>strings.Trim(s, cutset)\<close>.\<close>

definition Trim :: "string \<Rightarrow> string \<Rightarrow> string" where
  "Trim s cutset =
     rev (dropWhile (\<lambda>x. x \<in> set cutset) (rev (dropWhile (\<lambda>x. x \<in> set cutset) s)))"

text \<open>\<^verbatim>\<open>strings.LastIndex(s, sep)\<close> for a one-byte separator; \<open>None\<close> is -1.\<close>

fun LastIndex :: "string \<Rightarrow> char \<Rightarrow> nat option" where
  "LastIndex [] c = None"
| "LastIndex (x # xs) c =
     (case LastIndex xs c of
        Some i \<Rightarrow> Some (Suc i)
      | None \<Rightarrow> (if x = c then Some 0 else None))"

text \<open>Reading a Go map of strings: a missing key reads as the empty string.\<close>

definition lookup :: "(string \<rightharpoonup> string) \<Rightarrow> string \<Rightarrow> string" where
  "lookup m k = (case m k of None \<Rightarrow> [] | Some v \<Rightarrow> v)"

section \<open>URLs that the HTTP client sends (net/url, net/http)\<close>

text \<open>
  \<^verbatim>\<open>http.Client.Get\<close> parses the URL and fails, without sending anything, unless the
  scheme is http or https. The scheme is found by getScheme of net/url: the characters
  before the first colon, when they are letters, digits, +, - or . and the first of
  them is a letter; url.Parse puts it in lower case. With no such prefix the scheme is
  empty (a colon in the first place is an error of url.Parse, which is the empty scheme
  here: the request fails either way).
\<close>

definition toLower :: "char \<Rightarrow> char" where
  "toLower c =
     (case map_of (zip ''ABCDEFGHIJKLMNOPQRSTUVWXYZ'' ''abcdefghijklmnopqrstuvwxyz'') c of
        None \<Rightarrow> c
      | Some l \<Rightarrow> l)"

definition isLetter :: "char \<Rightarrow> bool" where
  "isLetter c = (toLower c \<in> set ''abcdefghijklmnopqrstuvwxyz'')"

fun schemeOf :: "bool \<Rightarrow> string \<Rightarrow> string option" where
  "schemeOf first [] = None"
| "schemeOf first (c # cs) =
     (if isLetter c then map_option ((#) c) (schemeOf False cs)
      else if c \<in> set ''0123456789+-.'' then
        (if first then None else map_option ((#) c) (schemeOf False cs))
      else if c = CHR '':'' \<and> \<not> first then Some []
      else None)"

definition getScheme :: "string \<Rightarrow> string" where
  "getScheme rawURL = (case schemeOf True rawURL of None \<Rightarrow> [] | Some scheme \<Rightarrow> scheme)"

definition sendable :: "lib \<Rightarrow> string \<Rightarrow> bool" where
  "sendable L url =
     (map toLower (getScheme url) \<in> {''http'', ''https''} \<and> accepts_url L url)"

section \<open>Authentication (part_003, parseAuthHeader and the token closure)\<close>

definition quote :: char where
  "quote = CHR 0x22"

definition addParam :: "string \<Rightarrow> (string \<rightharpoonup> string) \<Rightarrow> (string \<rightharpoonup> string)" where
  "addParam param authHeader =
     (case SplitN2 param (CHR ''='') of
        [k, v] \<Rightarrow> authHeader(k \<mapsto> Trim v [quote])
      | _ \<Rightarrow> authHeader)"

definition parseAuthHeader :: "string \<Rightarrow> (string \<rightharpoonup> string)" where
  "parseAuthHeader header =
     (case SplitN2 header (CHR '' '') of
        [p0, p1] \<Rightarrow>
          (if p0 = ''Bearer'' then fold addParam (Split p1 (CHR '','')) Map.empty
           else Map.empty)
      | _ \<Rightarrow> Map.empty)"

definition tokenURL :: "string \<Rightarrow> string \<Rightarrow> string \<Rightarrow> string" where
  "tokenURL realm service scope = realm @ ''?service='' @ service @ ''&scope='' @ scope"

definition defaultScope :: "reference \<Rightarrow> string" where
  "defaultScope imageRef = ''repository:'' @ RepositoryStr imageRef @ '':pull''"

text \<open>
  The closure of downloadLayerWithRetry that obtains the token (part_003, lines 238-286).
  It returns the outcome, the replies left, and the requests it sent.

  \<open>challengeURL\<close> is the URL of the token request (lines 255-263), built from what the
  Www-Authenticate header of the probe's response gives; a field that the header does
  not give is the empty string. The request is made with \<^verbatim>\<open>authClient.Get\<close>: a URL that
  the client does not send (no realm, or a realm that is not an http or https URL) is an
  error of the client, returned as a network error, and no reply is used up.
\<close>

definition challengeURL :: "reference \<Rightarrow> string \<Rightarrow> string" where
  "challengeURL imageRef header =
     (let authHeader = parseAuthHeader header;
          realm = lookup authHeader ''realm'';
          service = lookup authHeader ''service'';
          scope0 = lookup authHeader ''scope'';
          scope = (if scope0 = [] then defaultScope imageRef else scope0)
      in tokenURL realm service scope)"

definition requestToken ::
  "lib \<Rightarrow> reference \<Rightarrow> string \<Rightarrow> reply list \<Rightarrow> string outcome \<times> reply list \<times> event list" where
  "requestToken L imageRef header rs =
     (let url = challengeURL imageRef header
      in if \<not> sendable L url then
           (Failed (WrapError ErrCodeNetworkError (Some ExternalError)), rs, [])
         else
           (case rs of
              [] \<Rightarrow> (Pending, [], [])
            | NetError # rs' \<Rightarrow>
                (Failed (WrapError ErrCodeNetworkError (Some ExternalError)), rs', [TokenGet url])
            | Response st h body berr # rs' \<Rightarrow>
                (if st \<noteq> 200 then (Failed (WrapError ErrCodeAuthError None), rs', [TokenGet url])
                 else (case decode_token L body of
                         None \<Rightarrow>
                           (Failed (WrapError ErrCodeAuthError (Some ExternalError)), rs',
                            [TokenGet url])
                       | Some t \<Rightarrow> (Done t, rs', [TokenGet url])))))"

definition probeURL :: "reference \<Rightarrow> string" where
  "probeURL imageRef = ''https://'' @ RegistryStr imageRef @ ''/v2/''"

fun addEvents :: "event list \<Rightarrow> 'a \<times> 'b \<times> event list \<Rightarrow> 'a \<times> 'b \<times> event list" where
  "addEvents evs (r, x, evs') = (r, x, evs @ evs')"

definition getToken ::
  "lib \<Rightarrow> reference \<Rightarrow> reply list \<Rightarrow> string outcome \<times> reply list \<times> event list" where
  "getToken L imageRef rs =
     (case rs of
        [] \<Rightarrow> (Pending, [], [])
      | NetError # rs' \<Rightarrow>
          (Failed (WrapError ErrCodeNetworkError (Some ExternalError)), rs',
           [Probe (probeURL imageRef)])
      | Response st header body berr # rs' \<Rightarrow>
          (if st = 401 then
             addEvents [Probe (probeURL imageRef)] (requestToken L imageRef header rs')
           else if st \<noteq> 200 then
             (Failed (WrapError ErrCodeAuthError None), rs', [Probe (probeURL imageRef)])
           else (Done [], rs', [Probe (probeURL imageRef)])))"

section \<open>The resumable download (part_003, downloadLayerWithRetry)\<close>

definition maxRetries :: nat where
  "maxRetries = 5"

definition getFileSize :: "filesystem \<Rightarrow> string \<Rightarrow> int" where
  "getFileSize fs filePath = (case fs filePath of None \<Rightarrow> 0 | Some bs \<Rightarrow> int (length bs))"

definition validateFileIntegrity :: "lib \<Rightarrow> filesystem \<Rightarrow> string \<Rightarrow> string \<Rightarrow> error option" where
  "validateFileIntegrity L fs filePath expectedDigest =
     (case fs filePath of
        None \<Rightarrow> Some (WrapError ErrCodeFileOperation (Some ExternalError))
      | Some bs \<Rightarrow>
          (if ''sha256:'' @ sha256_hex L bs \<noteq> expectedDigest
           then Some (WrapError ErrCodeChecksumError None)
           else None))"

text \<open>
  The closure that handles one response (part_003, lines 350-396): the error it records
  in lastErr (\<open>None\<close> when the chunk was written, chunkDownloaded = true) and the files
  afterwards. Status 206 opens the file for appending without creating it; status 200
  creates or truncates it.
\<close>

definition writeResponse ::
  "string \<Rightarrow> filesystem \<Rightarrow> nat \<Rightarrow> bytes \<Rightarrow> bool \<Rightarrow> error option \<times> filesystem" where
  "writeResponse destPath fs st body berr =
     (if st = 206 then
        (case fs destPath of
           None \<Rightarrow> (Some (WrapError ErrCodeFileOperation (Some ExternalError)), fs)
         | Some old \<Rightarrow>
             (if berr then Some (WrapError ErrCodeFileOperation (Some ExternalError)) else None,
              fs(destPath \<mapsto> old @ body)))
      else if st = 200 then
        (if berr then Some (WrapError ErrCodeFileOperation (Some ExternalError)) else None,
         fs(destPath \<mapsto> body))
      else (Some (WrapError ErrCodeNetworkError None), fs))"

text \<open>
  How the retry loop ends: a chunk was written (the loop is left by \<^verbatim>\<open>break\<close>), the
  counter has reached maxRetries (with the last error recorded), or the replies are
  used up while the loop is still running.
\<close>

datatype cycle = ChunkDownloaded | Exhausted "error option" | Unfinished

fun addEvents4 ::
  "event list \<Rightarrow> 'a \<times> 'b \<times> 'c \<times> event list \<Rightarrow> 'a \<times> 'b \<times> 'c \<times> event list" where
  "addEvents4 evs (r, x, y, evs') = (r, x, y, evs @ evs')"

text \<open>
  The retry loop (part_003, lines 322-401), from a given value of \<open>retries\<close> and
  \<open>lastErr\<close>. The counter is incremented only when the file is empty or missing; the sleep
  after a failure is \<open>(retries + 1) * 2\<close> seconds with the counter as it is then.
\<close>

fun retryLoop ::
  "string \<Rightarrow> string \<Rightarrow> string \<Rightarrow> nat \<Rightarrow> error option \<Rightarrow> filesystem \<Rightarrow> reply list
     \<Rightarrow> cycle \<times> filesystem \<times> reply list \<times> event list" where
  "retryLoop token layerURL destPath retries lastErr fs [] =
     (if retries < maxRetries then (Unfinished, fs, [], [])
      else (Exhausted lastErr, fs, [], []))"
| "retryLoop token layerURL destPath retries lastErr fs (r # rs) =
     (if \<not> retries < maxRetries then (Exhausted lastErr, fs, r # rs, [])
      else
        (let currentSize = getFileSize fs destPath;
             retries' = (if currentSize > 0 then retries else retries + 1);
             req = BlobGet layerURL token (if currentSize > 0 then Some currentSize else None)
         in case r of
              NetError \<Rightarrow>
                addEvents4 [req, Sleep ((retries' + 1) * 2)]
                  (retryLoop token layerURL destPath retries'
                     (Some (WrapError ErrCodeNetworkError (Some ExternalError))) fs rs)
            | Response st h body berr \<Rightarrow>
                (case writeResponse destPath fs st body berr of
                   (None, fs') \<Rightarrow> (ChunkDownloaded, fs', rs, [req])
                 | (Some e, fs') \<Rightarrow>
                     addEvents4 [req, Sleep ((retries' + 1) * 2)]
                       (retryLoop token layerURL destPath retries' (Some e) fs' rs))))"

lemma retryLoop_consumes:
  "retryLoop token url dest retries lastErr fs rs = (ChunkDownloaded, fs', rs', evs)
     \<Longrightarrow> length rs' < length rs"
proof (induction rs arbitrary: retries lastErr fs evs)
  case Nil
  then show ?case by (simp split: if_splits)
next
  case (Cons r rs)
  show ?case
  proof (cases r)
    case NetError
    with Cons.prems obtain evs0 where
      "retryLoop token url dest
         (if getFileSize fs dest > 0 then retries else retries + 1)
         (Some (WrapError ErrCodeNetworkError (Some ExternalError))) fs rs
       = (ChunkDownloaded, fs', rs', evs0)"
      by (cases "retryLoop token url dest
         (if getFileSize fs dest > 0 then retries else retries + 1)
         (Some (WrapError ErrCodeNetworkError (Some ExternalError))) fs rs")
        (auto simp: Let_def split: if_splits)
    from Cons.IH [OF this] show ?thesis by simp
  next
    case (Response st h body berr)
    show ?thesis
    proof (cases "writeResponse dest fs st body berr")
      case (Pair e fs1)
      show ?thesis
      proof (cases e)
        case None
        with Cons.prems Response Pair show ?thesis
          by (auto simp: Let_def split: if_splits)
      next
        case (Some err)
        with Cons.prems Response Pair obtain evs0 where
          "retryLoop token url dest
             (if getFileSize fs dest > 0 then retries else retries + 1)
             (Some err) fs1 rs
           = (ChunkDownloaded, fs', rs', evs0)"
          by (cases "retryLoop token url dest
             (if getFileSize fs dest > 0 then retries else retries + 1)
             (Some err) fs1 rs")
            (auto simp: Let_def split: if_splits)
        from Cons.IH [OF this] show ?thesis by simp
      qed
    qed
  qed
qed

text \<open>
  The outer loop (part_003, lines 292-406). A file of the expected size is validated:
  if the digest matches the call returns nil, otherwise the file is removed and the loop
  goes on. A file that is too long is truncated. Then one retry cycle runs.
\<close>

function fetchLoop ::
  "lib \<Rightarrow> string \<Rightarrow> string \<Rightarrow> string \<Rightarrow> int \<Rightarrow> string \<Rightarrow> filesystem \<Rightarrow> reply list
     \<Rightarrow> unit outcome \<times> filesystem \<times> reply list \<times> event list" where
  "fetchLoop L token layerURL destPath size' expectedDigest fs rs =
     (if size' > 0 \<and> getFileSize fs destPath = size' then
        (case validateFileIntegrity L fs destPath expectedDigest of
           Some err \<Rightarrow>
             addEvents4 [Removed destPath]
               (fetchLoop L token layerURL destPath size' expectedDigest (fs(destPath := None)) rs)
         | None \<Rightarrow> (Done (), fs, rs, []))
      else
        (let oversize = (size' > 0 \<and> getFileSize fs destPath > size');
             fs1 = (if oversize then fs(destPath \<mapsto> []) else fs);
             evs1 = (if oversize then [Truncated destPath] else [])
         in case retryLoop token layerURL destPath 0 None fs1 rs of
              (ChunkDownloaded, fs2, rs2, evs2) \<Rightarrow>
                addEvents4 (evs1 @ evs2)
                  (fetchLoop L token layerURL destPath size' expectedDigest fs2 rs2)
            | (Exhausted lastErr, fs2, rs2, evs2) \<Rightarrow>
                (Failed (WrapError ErrCodeImageDownload lastErr), fs2, rs2, evs1 @ evs2)
            | (Unfinished, fs2, rs2, evs2) \<Rightarrow> (Pending, fs2, rs2, evs1 @ evs2)))"
  by pat_completeness auto
termination
proof (relation "measure (\<lambda>(L, token, url, dest, size', dg, fs, rs).
          2 * length rs + (if size' > 0 \<and> getFileSize fs dest = size' then 1 else 0))",
       goal_cases)
  case 1
  show ?case by simp
next
  case (2 L token layerURL destPath size' expectedDigest fs rs err)
  then show ?case by (simp add: getFileSize_def)
next
  case (3 L token layerURL destPath size' expectedDigest fs rs x xa xb x1 x2 x1a x2a x1b x2b)
  then have "length x1b < length rs"
    using retryLoop_consumes by metis
  then show ?case by simp
qed

declare fetchLoop.simps [simp del]

text \<open>
  downloadLayerWithRetry (part_003, lines 212-407): the check of a file that is already
  complete, the token, then the loop. os.Remove and os.Truncate are applied to a file
  that exists and succeed; building the request does not fail.
\<close>

definition downloadLayerWithRetry ::
  "lib \<Rightarrow> reference \<Rightarrow> string \<Rightarrow> string \<Rightarrow> int \<Rightarrow> string \<Rightarrow> filesystem \<Rightarrow> reply list
     \<Rightarrow> unit outcome \<times> filesystem \<times> reply list \<times> event list" where
  "downloadLayerWithRetry L imageRef layerURL destPath size' expectedDigest fs rs =
     (let localSize = getFileSize fs destPath;
          complete = (localSize > 0 \<and> size' > 0 \<and> localSize = size')
      in if complete \<and> expectedDigest = [] then (Done (), fs, rs, [])
         else if complete \<and> validateFileIntegrity L fs destPath expectedDigest = None
           then (Done (), fs, rs, [])
         else
           (let fs0 = (if complete then fs(destPath := None) else fs);
                evs0 = (if complete then [Removed destPath] else [])
            in case getToken L imageRef rs of
                 (Pending, rs1, evs1) \<Rightarrow> (Pending, fs0, rs1, evs0 @ evs1)
               | (Failed err, rs1, evs1) \<Rightarrow>
                   (Failed (WrapError ErrCodeAuthError (Some err)), fs0, rs1, evs0 @ evs1)
               | (Done token, rs1, evs1) \<Rightarrow>
                   addEvents4 (evs0 @ evs1)
                     (fetchLoop L token layerURL destPath size' expectedDigest fs0 rs1)))"

section \<open>Images (go-containerregistry, as far as the source reads them)\<close>

record Hash =
  Algorithm :: string
  Hex :: string

definition hashString :: "Hash \<Rightarrow> string" where
  "hashString h = Algorithm h @ '':'' @ Hex h"

text \<open>A method of the library that can return an error is a field of option type.\<close>

record Layer =
  Digest :: "Hash option"
  Size :: "int option"
  UncompressedSize :: "int option"

record Image =
  imgConfigName :: "Hash option"
  imgConfigFile :: "string option"
  imgLayers :: "Layer list option"

record StreamOptions =
  Platform :: string
  Compression :: bool
  UseCompressedLayers :: bool

section \<open>Export of one image (part_003, streamImageLayers and streamDockerFormatWithReturn)\<close>

definition joinPath :: "string \<Rightarrow> string \<Rightarrow> string" where
  "joinPath dir file = dir @ ''/'' @ file"

definition blobURL :: "reference \<Rightarrow> string \<Rightarrow> string" where
  "blobURL r digest =
     ''https://'' @ RegistryStr r @ ''/v2/'' @ RepositoryStr r @ ''/blobs/'' @ digest"

text \<open>The first loop over the layers (lines 483-490): the digest of every layer.\<close>

fun collectDigests :: "Layer list \<Rightarrow> string list option" where
  "collectDigests [] = Some []"
| "collectDigests (layer # layers) =
     (case Digest layer of
        None \<Rightarrow> None
      | Some digest \<Rightarrow>
          (case collectDigests layers of
             None \<Rightarrow> None
           | Some ds \<Rightarrow> Some (hashString digest # ds)))"

text \<open>The body of the second loop (lines 494-533): one layer is downloaded.\<close>

definition downloadLayer ::
  "lib \<Rightarrow> StreamOptions option \<Rightarrow> string \<Rightarrow> string \<Rightarrow> Layer \<Rightarrow> filesystem \<Rightarrow> reply list
     \<Rightarrow> unit outcome \<times> filesystem \<times> reply list \<times> event list" where
  "downloadLayer L options outputDir imageRef layer fs rs =
     (case Digest layer of
        None \<Rightarrow> (Failed (WrapError ErrCodeImageParse (Some ExternalError)), fs, rs, [])
      | Some digest \<Rightarrow>
          (case (if options \<noteq> None \<and> UseCompressedLayers (the options)
                 then Size layer else UncompressedSize layer) of
             None \<Rightarrow> (Failed (WrapError ErrCodeImageParse (Some ExternalError)), fs, rs, [])
           | Some layerSize \<Rightarrow>
               (case ParseReference L imageRef of
                  None \<Rightarrow> (Failed (WrapError ErrCodeImageParse (Some ExternalError)), fs, rs, [])
                | Some imageRefInfo \<Rightarrow>
                    (case downloadLayerWithRetry L imageRefInfo
                            (blobURL imageRefInfo (hashString digest))
                            (joinPath outputDir (hashString digest @ ''.tar''))
                            layerSize (hashString digest) fs rs of
                       (Failed err, fs', rs', evs) \<Rightarrow>
                         (Failed (WrapError ErrCodeImageDownload (Some err)), fs', rs', evs)
                     | other \<Rightarrow> other))))"

fun downloadLayers ::
  "lib \<Rightarrow> StreamOptions option \<Rightarrow> string \<Rightarrow> string \<Rightarrow> Layer list \<Rightarrow> filesystem \<Rightarrow> reply list
     \<Rightarrow> unit outcome \<times> filesystem \<times> reply list \<times> event list" where
  "downloadLayers L options outputDir imageRef [] fs rs = (Done (), fs, rs, [])"
| "downloadLayers L options outputDir imageRef (layer # layers) fs rs =
     (case downloadLayer L options outputDir imageRef layer fs rs of
        (Done u, fs', rs', evs) \<Rightarrow>
          addEvents4 evs (downloadLayers L options outputDir imageRef layers fs' rs')
      | other \<Rightarrow> other)"

text \<open>The manifest entry and the repositories object (lines 540-560).\<close>

definition singleManifest :: "string \<Rightarrow> string \<Rightarrow> string list \<Rightarrow> manifest" where
  "singleManifest configDigest imageRef layerDigests =
     \<lparr> Config = configDigest @ ''.json'',
       RepoTags = [imageRef],
       Layers = map (\<lambda>digest. digest @ ''.tar'') layerDigests \<rparr>"

definition buildRepositories :: "string \<Rightarrow> string \<Rightarrow> repositories" where
  "buildRepositories imageRef configDigest =
     (case LastIndex imageRef (CHR '':'') of
        Some i \<Rightarrow> [(take i imageRef, [(drop (i + 1) imageRef, configDigest)])]
      | None \<Rightarrow> [])"

text \<open>
  streamDockerFormatWithReturn. \<open>batch\<close> says that both output pointers are non-nil; the
  manifest entry and the repositories object are returned in both cases, and written to
  the output directory when \<open>batch\<close> is false.
\<close>

definition streamDockerFormatWithReturn ::
  "lib \<Rightarrow> Image \<Rightarrow> Layer list \<Rightarrow> string \<Rightarrow> string \<Rightarrow> bool \<Rightarrow> StreamOptions option \<Rightarrow> string
     \<Rightarrow> filesystem \<Rightarrow> reply list
     \<Rightarrow> (manifest \<times> repositories) outcome \<times> filesystem \<times> reply list \<times> event list" where
  "streamDockerFormatWithReturn L img layers configFile imageRef batch options outputDir fs rs =
     (case imgConfigName img of
        None \<Rightarrow> (Failed (WrapError ErrCodeImageParse (Some ExternalError)), fs, rs, [])
      | Some configDigest \<Rightarrow>
     (case marshal_config L configFile of
        None \<Rightarrow> (Failed (WrapError ErrCodeImageParse (Some ExternalError)), fs, rs, [])
      | Some configData \<Rightarrow>
     (let fs1 = fs(joinPath outputDir (hashString configDigest @ ''.json'') \<mapsto> configData)
      in case collectDigests layers of
        None \<Rightarrow> (Failed (WrapError ErrCodeImageParse (Some ExternalError)), fs1, rs, [])
      | Some layerDigests \<Rightarrow>
     (case downloadLayers L options outputDir imageRef layers fs1 rs of
        (Pending, fs2, rs2, evs) \<Rightarrow> (Pending, fs2, rs2, evs)
      | (Failed err, fs2, rs2, evs) \<Rightarrow> (Failed err, fs2, rs2, evs)
      | (Done u, fs2, rs2, evs) \<Rightarrow>
     (let m = singleManifest (hashString configDigest) imageRef layerDigests;
          repositories = buildRepositories imageRef (hashString configDigest)
      in if batch then (Done (m, repositories), fs2, rs2, evs)
         else
     (case marshal_manifest L [m] of
        None \<Rightarrow> (Failed (WrapError ErrCodeFileOperation (Some ExternalError)), fs2, rs2, evs)
      | Some manifestData \<Rightarrow>
     (let fs3 = fs2(joinPath outputDir ''manifest.json'' \<mapsto> manifestData)
      in case marshal_repositories L repositories of
        None \<Rightarrow> (Failed (WrapError ErrCodeFileOperation (Some ExternalError)), fs3, rs2, evs)
      | Some repositoriesData \<Rightarrow>
          (Done (m, repositories),
           fs3(joinPath outputDir ''repositories'' \<mapsto> repositoriesData), rs2, evs))))))))"

text \<open>
  streamImageLayers (lines 441-460). The digests known on the host, \<open>existLayers\<close>, are a
  parameter that the body does not read: all layers are passed on.
\<close>

definition streamImageLayers ::
  "lib \<Rightarrow> Image \<Rightarrow> string list \<Rightarrow> string \<Rightarrow> StreamOptions option \<Rightarrow> string
     \<Rightarrow> filesystem \<Rightarrow> reply list
     \<Rightarrow> (manifest \<times> repositories) outcome \<times> filesystem \<times> reply list \<times> event list" where
  "streamImageLayers L img existLayers outputDir options imageRef fs rs =
     (case imgConfigFile img of
        None \<Rightarrow> (Failed (WrapError ErrCodeImageParse (Some ExternalError)), fs, rs, [])
      | Some configFile \<Rightarrow>
          (case imgLayers img of
             None \<Rightarrow> (Failed (WrapError ErrCodeImageParse (Some ExternalError)), fs, rs, [])
           | Some layers \<Rightarrow>
               streamDockerFormatWithReturn L img layers configFile imageRef False options
                 outputDir fs rs))"

section \<open>Assembly of the archive (part_003, assembleImageTar and addFileToTar)\<close>

text \<open>
  The tar stream is the list of its entries, name and content, in the order written
  (every header has mode 0644 and the size of the content). Writing to it does not fail.
\<close>

type_synonym tar = "(string \<times> bytes) list"

definition addFileToTar :: "tar \<Rightarrow> filesystem \<Rightarrow> string \<Rightarrow> string \<Rightarrow> error option \<times> tar" where
  "addFileToTar tw fs filePath nameInTar =
     (case fs filePath of
        None \<Rightarrow> (Some (WrapError ErrCodeFileOperation (Some ExternalError)), tw)
      | Some content \<Rightarrow> (None, tw @ [(nameInTar, content)]))"

fun addLayerFiles :: "tar \<Rightarrow> filesystem \<Rightarrow> string \<Rightarrow> string list \<Rightarrow> error option \<times> tar" where
  "addLayerFiles tw fs outputDir [] = (None, tw)"
| "addLayerFiles tw fs outputDir (layerPath # layers) =
     (case addFileToTar tw fs (joinPath outputDir layerPath) layerPath of
        (Some err, tw') \<Rightarrow> (Some (WrapError ErrCodeTarAssembly (Some err)), tw')
      | (None, tw') \<Rightarrow> addLayerFiles tw' fs outputDir layers)"

fun addImages :: "tar \<Rightarrow> filesystem \<Rightarrow> string \<Rightarrow> manifest list \<Rightarrow> error option \<times> tar" where
  "addImages tw fs outputDir [] = (None, tw)"
| "addImages tw fs outputDir (m # ms) =
     (case addFileToTar tw fs (joinPath outputDir (Config m)) (Config m) of
        (Some err, tw') \<Rightarrow> (Some (WrapError ErrCodeTarAssembly (Some err)), tw')
      | (None, tw') \<Rightarrow>
          (case addLayerFiles tw' fs outputDir (Layers m) of
             (Some err, tw'') \<Rightarrow> (Some err, tw'')
           | (None, tw'') \<Rightarrow> addImages tw'' fs outputDir ms))"

definition assembleImageTar :: "lib \<Rightarrow> filesystem \<Rightarrow> string \<Rightarrow> error option \<times> tar" where
  "assembleImageTar L fs outputDir =
     (case fs (joinPath outputDir ''manifest.json'') of
        None \<Rightarrow> (Some (WrapError ErrCodeFileOperation (Some ExternalError)), [])
      | Some manifestData \<Rightarrow>
     (case unmarshal_manifest L manifestData of
        None \<Rightarrow> (Some (WrapError ErrCodeImageParse (Some ExternalError)), [])
      | Some ms \<Rightarrow>
          if ms = [] then (Some (WrapError ErrCodeImageParse None), [])
          else
     (case addFileToTar [] fs (joinPath outputDir ''manifest.json'') ''manifest.json'' of
        (Some err, tw) \<Rightarrow> (Some (WrapError ErrCodeTarAssembly (Some err)), tw)
      | (None, tw) \<Rightarrow>
     (case (if fs (joinPath outputDir ''repositories'') \<noteq> None
            then addFileToTar tw fs (joinPath outputDir ''repositories'') ''repositories''
            else (None, tw)) of
        (Some err, tw') \<Rightarrow> (Some (WrapError ErrCodeTarAssembly (Some err)), tw')
      | (None, tw') \<Rightarrow> addImages tw' fs outputDir ms))))"

section \<open>The earlier variants kept in the repository (part_002)\<close>

text \<open>
  The filter of the first streamImageLayers (part_002, lines 648-651): the layers whose
  hex digest is not among those of the host. A digest that cannot be read is the zero
  Hash, whose hex is empty.
\<close>

definition filterExisting :: "string list \<Rightarrow> Layer list \<Rightarrow> Layer list" where
  "filterExisting existLayers layers =
     filter (\<lambda>l. (case Digest l of None \<Rightarrow> [] | Some d \<Rightarrow> Hex d) \<notin> set existLayers) layers"

text \<open>\<^verbatim>\<open>strings.Cut(s, sep)\<close> for a one-byte separator, without its third result.\<close>

definition Cut :: "string \<Rightarrow> char \<Rightarrow> string \<times> string" where
  "Cut s c = (case cutAt c s of None \<Rightarrow> (s, []) | Some (a, b) \<Rightarrow> (a, b))"

text \<open>The repositories object of writeMetadata (part_002, lines 1235-1240).\<close>

definition writeMetadataRepositories :: "string \<Rightarrow> string \<Rightarrow> repositories" where
  "writeMetadataRepositories imageRef configDigest =
     (let (repoName, tag) = Cut imageRef (CHR '':'');
          tag' = (if tag = [] then ''latest'' else tag)
      in [(repoName, [(tag', configDigest)])])"

section \<open>Concrete inputs\<close>

text \<open>
  Stand-ins for the library functions, to run the definitions on concrete inputs: the
  theorems below hold for every \<open>lib\<close>, so in particular for the real SHA-256 and JSON.
  The stand-in for \<open>accepts_url\<close> asks that a host follows the two slashes after the
  scheme.
\<close>

definition demoLib :: lib where
  "demoLib =
     \<lparr> sha256_hex = (\<lambda>bs. bs),
       decode_token = (\<lambda>body. if body = [] then None else Some body),
       ParseReference = (\<lambda>s. Some \<lparr> RegistryStr = ''reg'', RepositoryStr = ''repo/name'' \<rparr>),
       marshal_config = Some,
       marshal_manifest = (\<lambda>ms. Some (concat (map (\<lambda>m. Config m @ concat (Layers m)) ms))),
       marshal_repositories = (\<lambda>r. Some (concat (map fst r))),
       unmarshal_manifest =
         (\<lambda>data. if data = [] then None
                  else Some [\<lparr> Config = ''c.json'', RepoTags = [data], Layers = [''l1.tar'', ''l2.tar''] \<rparr>]),
       accepts_url =
         (\<lambda>url. case dropWhile (\<lambda>c. c \<noteq> CHR '':'') url of
                  c0 # c1 # c2 # c3 # rest \<Rightarrow>
                    c1 = CHR ''/'' \<and> c2 = CHR ''/'' \<and> c3 \<notin> set ''/?#''
                | _ \<Rightarrow> False) \<rparr>"

definition demoRef :: reference where
  "demoRef = \<lparr> RegistryStr = ''reg'', RepositoryStr = ''repo/name'' \<rparr>"

definition demoOptions :: "StreamOptions option" where
  "demoOptions =
     Some \<lparr> Platform = ''linux/amd64'', Compression = True, UseCompressedLayers = True \<rparr>"

definition demoLayers :: "Layer list" where
  "demoLayers =
     [\<lparr> Digest = Some \<lparr> Algorithm = ''sha256'', Hex = ''aa'' \<rparr>, Size = Some 2,
        UncompressedSize = Some 5 \<rparr>,
      \<lparr> Digest = Some \<lparr> Algorithm = ''sha256'', Hex = ''b'' \<rparr>, Size = Some 1,
        UncompressedSize = Some 5 \<rparr>]"

definition demoImage :: Image where
  "demoImage =
     \<lparr> imgConfigName = Some \<lparr> Algorithm = ''sha256'', Hex = ''cc'' \<rparr>,
       imgConfigFile = Some ''{}'',
       imgLayers = Some demoLayers \<rparr>"

definition demoDir :: filesystem where
  "demoDir =
     Map.empty(''output/manifest.json'' \<mapsto> ''m'', ''output/c.json'' \<mapsto> ''{}'',
               ''output/l1.tar'' \<mapsto> ''x'')"

text \<open>
  The error assembleImageTar returns for a file it cannot open: the error of
  addFileToTar wrapped again.
\<close>

definition missingFile :: error where
  "missingFile =
     AppError ErrCodeTarAssembly (Some (AppError ErrCodeFileOperation (Some ExternalError)))"

text \<open>The tar entries of a list of file names of the output directory, all present.\<close>

definition tarEntries :: "filesystem \<Rightarrow> string \<Rightarrow> string list \<Rightarrow> tar" where
  "tarEntries fs dir names = map (\<lambda>n. (n, the (fs (joinPath dir n)))) names"

fun isAuthRequest :: "event \<Rightarrow> bool" where
  "isAuthRequest (Probe _) = True"
| "isAuthRequest (TokenGet _) = True"
| "isAuthRequest _ = False"

text \<open>
  A reply after which no byte has been written to the file: a transport error, or a
  status other than 200 and 206.
\<close>

fun failsBeforeWriting :: "reply \<Rightarrow> bool" where
  "failsBeforeWriting NetError = True"
| "failsBeforeWriting (Response st _ _ _) = (st \<noteq> 200 \<and> st \<noteq> 206)"

text \<open>
  What the reply to one GET of the blob leaves at the destination, from the content
  found there (\<open>None\<close>: no file): the body of a 200 response replaces it, the body of a
  206 response is appended to a file that exists, anything else leaves it as it is.
\<close>

fun written :: "bytes option \<Rightarrow> reply \<Rightarrow> bytes option" where
  "written f NetError = f"
| "written f (Response st h body berr) =
     (if st = 206 then map_option (\<lambda>old. old @ body) f
      else if st = 200 then Some body
      else f)"

text \<open>Runs of downloadLayerWithRetry on concrete files and replies.\<close>

definition demoFile :: "bytes \<Rightarrow> filesystem" where
  "demoFile content = Map.empty(''d'' \<mapsto> content)"

definition demoFetch :: "int \<Rightarrow> string \<Rightarrow> bytes \<Rightarrow> reply list
    \<Rightarrow> unit outcome \<times> filesystem \<times> reply list \<times> event list" where
  "demoFetch sz dg content rs =
     downloadLayerWithRetry demoLib demoRef ''u'' ''d'' sz dg (demoFile content) rs"

definition events :: "'a \<times> 'b \<times> 'c \<times> event list \<Rightarrow> event list" where
  "events run = snd (snd (snd run))"

definition files :: "'a \<times> filesystem \<times> 'c \<times> event list \<Rightarrow> filesystem" where
  "files run = fst (snd run)"

text \<open>
  The Www-Authenticate header of a Bearer challenge with the given realm and service,
  with or without a scope: the pairs key="value", separated by commas.
\<close>

definition param :: "string \<Rightarrow> string \<Rightarrow> string" where
  "param k v = k @ ''='' @ [quote] @ v @ [quote]"

definition challenge :: "string \<Rightarrow> string \<Rightarrow> string option \<Rightarrow> string" where
  "challenge realm service scope =
     ''Bearer '' @ param ''realm'' realm @ '','' @ param ''service'' service
       @ (case scope of None \<Rightarrow> [] | Some s \<Rightarrow> '','' @ param ''scope'' s)"

text \<open>The file of a layer in the output directory (part_003, line 515).\<close>

definition layerFile :: "string \<Rightarrow> Layer \<Rightarrow> string" where
  "layerFile outputDir layer = joinPath outputDir (hashString (the (Digest layer)) @ ''.tar'')"

lemmas run_defs =
  streamImageLayers_def streamDockerFormatWithReturn_def downloadLayer_def
  downloadLayerWithRetry_def hashString_def joinPath_def blobURL_def getFileSize_def
  validateFileIntegrity_def getToken_def fetchLoop.simps writeResponse_def maxRetries_def
  singleManifest_def buildRepositories_def probeURL_def WrapError_def
  demoLib_def demoRef_def demoOptions_def demoLayers_def demoImage_def

section \<open>The manifest entry and the repositories object\<close>

lemma LastIndex_absent: "c \<notin> set s \<Longrightarrow> LastIndex s c = None"
  by (induction s) auto

lemma LastIndex_last: "c \<notin> set t \<Longrightarrow> LastIndex (r @ c # t) c = Some (length r)"
  by (induction r) (auto simp: LastIndex_absent)

text \<open>
  The reference is split at its last colon: with a colon-free tag after the colon, the
  repositories object maps what precedes the colon to the tag and the config digest.
\<close>

lemma buildRepositories_split:
  "CHR '':'' \<notin> set tag \<Longrightarrow>
     buildRepositories (repo @ '':'' @ tag) configDigest = [(repo, [(tag, configDigest)])]"
  by (simp add: buildRepositories_def LastIndex_last)

lemma buildRepositories_tagged:
  "buildRepositories ''repo/name:v1'' configDigest = [(''repo/name'', [(''v1'', configDigest)])]
   \<and> RepoTags (singleManifest configDigest ''repo/name:v1'' ds) = [''repo/name:v1'']"
  by (simp add: buildRepositories_def singleManifest_def)

lemma buildRepositories_no_colon:
  "CHR '':'' \<notin> set imageRef \<Longrightarrow> buildRepositories imageRef configDigest = []"
  by (simp add: buildRepositories_def LastIndex_absent)

text \<open>
  C10. For the reference "repo/name", which has no colon, streamDockerFormatWithReturn
  of part_003 leaves the repositories object empty: no tag "latest" is supplied. The
  variant writeMetadata of part_002 does supply it.
\<close>

theorem buildRepositories_untagged:
  "buildRepositories ''repo/name'' configDigest = []
   \<and> writeMetadataRepositories ''repo/name'' configDigest
       = [(''repo/name'', [(''latest'', configDigest)])]"
  by (simp add: buildRepositories_def writeMetadataRepositories_def Cut_def)

lemma collectDigests_map:
  "collectDigests layers = Some ds \<Longrightarrow> ds = map (\<lambda>l. hashString (the (Digest l))) layers"
  by (induction layers arbitrary: ds) (auto split: option.splits)

lemma streamDockerFormatWithReturn_Done:
  assumes "streamDockerFormatWithReturn L img layers cf imageRef batch options outputDir fs rs
             = (Done (m, repos), fs', rs', evs)"
  shows "\<exists>ds cd. collectDigests layers = Some ds \<and> imgConfigName img = Some cd
           \<and> m = singleManifest (hashString cd) imageRef ds
           \<and> repos = buildRepositories imageRef (hashString cd)"
  using assms unfolding streamDockerFormatWithReturn_def
  by (auto simp: Let_def split: option.splits prod.splits outcome.splits if_splits)

text \<open>
  C1. When the export of an image succeeds, the Layers list of its manifest entry is
  the list of all layers of the image, each as digest.tar, in order; its length is the
  number of layers of the image, whatever digests the host knows and whatever the
  network and the output directory held.
\<close>

theorem manifest_layers_length:
  assumes "imgLayers img = Some layers"
      and "streamImageLayers L img existLayers outputDir options imageRef fs rs
             = (Done (m, repos), fs', rs', evs)"
  shows "Layers m = map (\<lambda>l. hashString (the (Digest l)) @ ''.tar'') layers
         \<and> length (Layers m) = length layers"
proof -
  from assms obtain cf where
    "streamDockerFormatWithReturn L img layers cf imageRef False options outputDir fs rs
       = (Done (m, repos), fs', rs', evs)"
    by (auto simp: streamImageLayers_def split: option.splits)
  from streamDockerFormatWithReturn_Done [OF this] obtain ds cd where
    ds: "collectDigests layers = Some ds" and m: "m = singleManifest (hashString cd) imageRef ds"
    by blast
  from collectDigests_map [OF ds] m show ?thesis
    by (simp add: singleManifest_def comp_def)
qed

theorem manifest_layers_length_witness:
  "imgLayers demoImage = Some demoLayers
   \<and> fst (streamImageLayers demoLib demoImage [''aa''] ''output'' demoOptions ''repo/name:v1''
            (Map.empty(''output/sha256:b.tar'' \<mapsto> ''b''))
            [Response 200 [] [] False, Response 200 [] ''aa'' False])
     = Done (\<lparr> Config = ''sha256:cc.json'', RepoTags = [''repo/name:v1''],
               Layers = [''sha256:aa.tar'', ''sha256:b.tar''] \<rparr>,
             [(''repo/name'', [(''v1'', ''sha256:cc'')])])
   \<and> length [''sha256:aa.tar'', ''sha256:b.tar''] = length demoLayers"
proof -
  let ?run = "streamImageLayers demoLib demoImage [''aa''] ''output'' demoOptions
                ''repo/name:v1'' (Map.empty(''output/sha256:b.tar'' \<mapsto> ''b''))
                [Response 200 [] [] False, Response 200 [] ''aa'' False]"
  let ?m = "\<lparr> Config = ''sha256:cc.json'', RepoTags = [''repo/name:v1''],
              Layers = [''sha256:aa.tar'', ''sha256:b.tar''] \<rparr>"
  have l: "imgLayers demoImage = Some demoLayers"
    by (simp add: demoImage_def)
  have r: "fst ?run = Done (?m, [(''repo/name'', [(''v1'', ''sha256:cc'')])])"
    by (simp add: run_defs)
  then have "?run = (Done (?m, [(''repo/name'', [(''v1'', ''sha256:cc'')])]),
                     fst (snd ?run), fst (snd (snd ?run)), snd (snd (snd ?run)))"
    by (metis prod.collapse)
  from manifest_layers_length [OF l this] l r show ?thesis
    by simp
qed

section \<open>Assembly of the archive: a missing layer file\<close>

lemma addFileToTar_cases:
  "addFileToTar tw fs p n = (e, tw') \<Longrightarrow>
     (fs p = None \<and> e = Some (AppError ErrCodeFileOperation (Some ExternalError)) \<and> tw' = tw)
     \<or> (\<exists>c. fs p = Some c \<and> e = None \<and> tw' = tw @ [(n, c)])"
  by (auto simp: addFileToTar_def WrapError_def split: option.splits)

lemma addLayerFiles_error:
  "addLayerFiles tw fs dir ls = (Some e, tw') \<Longrightarrow> e = missingFile"
proof (induction ls arbitrary: tw)
  case Nil then show ?case by simp
next
  case (Cons l ls)
  obtain e1 tw1 where a: "addFileToTar tw fs (joinPath dir l) l = (e1, tw1)" by force
  show ?case
  proof (cases e1)
    case None with Cons a show ?thesis by simp
  next
    case (Some err)
    with addFileToTar_cases [OF a] Cons.prems a show ?thesis
      by (auto simp: missingFile_def WrapError_def)
  qed
qed

lemma addLayerFiles_missing:
  "l \<in> set ls \<Longrightarrow> fs (joinPath dir l) = None \<Longrightarrow> fst (addLayerFiles tw fs dir ls) = Some missingFile"
proof (induction ls arbitrary: tw)
  case Nil then show ?case by simp
next
  case (Cons x ls)
  obtain e1 tw1 where a: "addFileToTar tw fs (joinPath dir x) x = (e1, tw1)" by force
  from addFileToTar_cases [OF a] Cons a show ?case
    by (auto simp: missingFile_def WrapError_def)
qed

lemma addLayerFiles_names:
  "addLayerFiles tw fs dir ls = (e, tw') \<Longrightarrow> (n, c) \<in> set tw' \<Longrightarrow>
     (n, c) \<in> set tw \<or> fs (joinPath dir n) = Some c"
proof (induction ls arbitrary: tw)
  case Nil then show ?case by simp
next
  case (Cons x ls)
  obtain e1 tw1 where a: "addFileToTar tw fs (joinPath dir x) x = (e1, tw1)" by force
  from addFileToTar_cases [OF a] show ?case
  proof
    assume "fs (joinPath dir x) = None \<and> e1 = Some (AppError ErrCodeFileOperation (Some ExternalError)) \<and> tw1 = tw"
    with Cons.prems a show ?thesis by auto
  next
    assume "\<exists>c. fs (joinPath dir x) = Some c \<and> e1 = None \<and> tw1 = tw @ [(x, c)]"
    then obtain c0 where c0: "fs (joinPath dir x) = Some c0" "e1 = None" "tw1 = tw @ [(x, c0)]" by blast
    with Cons.prems a have "addLayerFiles tw1 fs dir ls = (e, tw')" by simp
    from Cons.IH [OF this Cons.prems(2)] c0 show ?thesis by auto
  qed
qed

lemma addImages_error:
  "addImages tw fs dir ms = (Some e, tw') \<Longrightarrow> e = missingFile"
proof (induction ms arbitrary: tw)
  case Nil then show ?case by simp
next
  case (Cons m ms)
  obtain e1 tw1 where a: "addFileToTar tw fs (joinPath dir (Config m)) (Config m) = (e1, tw1)" by force
  obtain e2 tw2 where b: "addLayerFiles tw1 fs dir (Layers m) = (e2, tw2)" by force
  from addFileToTar_cases [OF a] show ?case
  proof
    assume "fs (joinPath dir (Config m)) = None \<and> e1 = Some (AppError ErrCodeFileOperation (Some ExternalError)) \<and> tw1 = tw"
    with Cons.prems a show ?thesis by (auto simp: missingFile_def WrapError_def)
  next
    assume "\<exists>c. fs (joinPath dir (Config m)) = Some c \<and> e1 = None \<and> tw1 = tw @ [(Config m, c)]"
    then have e1: "e1 = None" by blast
    show ?thesis
    proof (cases e2)
      case None
      with Cons.prems a b e1 have "addImages tw2 fs dir ms = (Some e, tw')" by simp
      from Cons.IH [OF this] show ?thesis .
    next
      case (Some err)
      with Cons.prems a b e1 have "e = err" by simp
      with addLayerFiles_error b Some show ?thesis by blast
    qed
  qed
qed

lemma addImages_missing:
  "m \<in> set ms \<Longrightarrow> l \<in> set (Layers m) \<Longrightarrow> fs (joinPath dir l) = None \<Longrightarrow>
     fst (addImages tw fs dir ms) = Some missingFile"
proof (induction ms arbitrary: tw)
  case Nil then show ?case by simp
next
  case (Cons x ms)
  obtain e1 tw1 where a: "addFileToTar tw fs (joinPath dir (Config x)) (Config x) = (e1, tw1)" by force
  obtain e2 tw2 where b: "addLayerFiles tw1 fs dir (Layers x) = (e2, tw2)" by force
  from addFileToTar_cases [OF a] show ?case
  proof
    assume "fs (joinPath dir (Config x)) = None \<and> e1 = Some (AppError ErrCodeFileOperation (Some ExternalError)) \<and> tw1 = tw"
    with a show ?thesis by (auto simp: missingFile_def WrapError_def)
  next
    assume "\<exists>c. fs (joinPath dir (Config x)) = Some c \<and> e1 = None \<and> tw1 = tw @ [(Config x, c)]"
    then have e1: "e1 = None" by blast
    show ?thesis
    proof (cases e2)
      case (Some err)
      with addLayerFiles_error b have "err = missingFile" by blast
      with a b e1 Some show ?thesis by simp
    next
      case None
      have "m \<noteq> x"
      proof
        assume "m = x"
        with Cons.prems addLayerFiles_missing [of l "Layers x" fs dir tw1] b None
        show False by simp
      qed
      with Cons.prems have "m \<in> set ms" by simp
      with Cons.IH [of tw2] Cons.prems(2,3)
      have "fst (addImages tw2 fs dir ms) = Some missingFile" by blast
      with a b e1 None show ?thesis by simp
    qed
  qed
qed

lemma addImages_names:
  "addImages tw fs dir ms = (e, tw') \<Longrightarrow> (n, c) \<in> set tw' \<Longrightarrow>
     (n, c) \<in> set tw \<or> fs (joinPath dir n) = Some c"
proof (induction ms arbitrary: tw)
  case Nil then show ?case by simp
next
  case (Cons x ms)
  obtain e1 tw1 where a: "addFileToTar tw fs (joinPath dir (Config x)) (Config x) = (e1, tw1)" by force
  obtain e2 tw2 where b: "addLayerFiles tw1 fs dir (Layers x) = (e2, tw2)" by force
  from addFileToTar_cases [OF a] show ?case
  proof
    assume "fs (joinPath dir (Config x)) = None \<and> e1 = Some (AppError ErrCodeFileOperation (Some ExternalError)) \<and> tw1 = tw"
    with Cons.prems a show ?thesis by auto
  next
    assume "\<exists>c. fs (joinPath dir (Config x)) = Some c \<and> e1 = None \<and> tw1 = tw @ [(Config x, c)]"
    then obtain c0 where c0: "fs (joinPath dir (Config x)) = Some c0" "e1 = None" "tw1 = tw @ [(Config x, c0)]" by blast
    have in2: "(n, c) \<in> set tw2 \<Longrightarrow> (n, c) \<in> set tw \<or> fs (joinPath dir n) = Some c"
      using addLayerFiles_names [OF b] c0 by auto
    show ?thesis
    proof (cases e2)
      case (Some err)
      with Cons.prems a b c0 have "tw' = tw2" by simp
      with in2 Cons.prems show ?thesis by simp
    next
      case None
      with Cons.prems a b c0 have "addImages tw2 fs dir ms = (e, tw')" by simp
      from Cons.IH [OF this Cons.prems(2)] in2 show ?thesis by blast
    qed
  qed
qed

lemma addLayerFiles_present:
  "\<forall>l\<in>set ls. fs (joinPath dir l) \<noteq> None \<Longrightarrow>
     addLayerFiles tw fs dir ls = (None, tw @ tarEntries fs dir ls)"
  by (induction ls arbitrary: tw) (auto simp: addFileToTar_def tarEntries_def)

lemma addImages_present:
  "\<forall>m\<in>set ms. \<forall>n\<in>set (Config m # Layers m). fs (joinPath dir n) \<noteq> None \<Longrightarrow>
     addImages tw fs dir ms
       = (None, tw @ concat (map (\<lambda>m. tarEntries fs dir (Config m # Layers m)) ms))"
proof (induction ms arbitrary: tw)
  case Nil
  then show ?case by simp
next
  case (Cons m ms)
  then obtain c where c: "fs (joinPath dir (Config m)) = Some c"
    by auto
  from Cons.prems have "\<forall>l\<in>set (Layers m). fs (joinPath dir l) \<noteq> None"
    by simp
  from addLayerFiles_present [OF this]
  have "addLayerFiles (tw @ [(Config m, c)]) fs dir (Layers m)
          = (None, (tw @ [(Config m, c)]) @ tarEntries fs dir (Layers m))" .
  moreover from Cons have "addImages ((tw @ [(Config m, c)]) @ tarEntries fs dir (Layers m)) fs dir ms
      = (None, ((tw @ [(Config m, c)]) @ tarEntries fs dir (Layers m))
               @ concat (map (\<lambda>m. tarEntries fs dir (Config m # Layers m)) ms))"
    by simp
  ultimately show ?case
    using c by (simp add: addFileToTar_def tarEntries_def)
qed

text \<open>
  When every file that the manifest names is present, the assembly succeeds and the
  tar holds manifest.json, the repositories file if there is one, and for every entry
  its config followed by its layers.
\<close>

lemma assembleImageTar_complete:
  assumes "fs (joinPath outputDir ''manifest.json'') = Some manifestData"
      and "unmarshal_manifest L manifestData = Some ms" and "ms \<noteq> []"
      and "\<forall>m\<in>set ms. \<forall>n\<in>set (Config m # Layers m). fs (joinPath outputDir n) \<noteq> None"
  shows "assembleImageTar L fs outputDir
           = (None, (''manifest.json'', manifestData)
                    # (case fs (joinPath outputDir ''repositories'') of
                         None \<Rightarrow> [] | Some r \<Rightarrow> [(''repositories'', r)])
                    @ concat (map (\<lambda>m. tarEntries fs outputDir (Config m # Layers m)) ms))"
  using assms(1-3) addImages_present [OF assms(4)]
  by (auto simp: assembleImageTar_def addFileToTar_def split: option.splits)

text \<open>
  C2, as amended. When the manifest names a layer file that is absent from the output
  directory, assembleImageTar does not skip it: it returns the tar-assembly error, and
  the tar written so far has no entry of that name.
\<close>

theorem assembleImageTar_missing_layer:
  assumes md: "fs (joinPath outputDir ''manifest.json'') = Some manifestData"
      and ms: "unmarshal_manifest L manifestData = Some ms"
      and m: "m \<in> set ms" and l: "layerPath \<in> set (Layers m)"
      and missing: "fs (joinPath outputDir layerPath) = None"
  shows "fst (assembleImageTar L fs outputDir) = Some missingFile
         \<and> layerPath \<notin> fst ` set (snd (assembleImageTar L fs outputDir))"
proof -
  let ?tw1 = "[(''manifest.json'', manifestData)]"
  let ?tw2 = "(case fs (joinPath outputDir ''repositories'') of None \<Rightarrow> ?tw1 | Some r \<Rightarrow> ?tw1 @ [(''repositories'', r)])"
  from m have ne: "ms \<noteq> []" by auto
  have eq: "assembleImageTar L fs outputDir = addImages ?tw2 fs outputDir ms"
    using md ms ne
    by (auto simp: assembleImageTar_def addFileToTar_def split: option.splits prod.splits)
  have 1: "fst (assembleImageTar L fs outputDir) = Some missingFile"
    using addImages_missing [of m ms layerPath fs outputDir ?tw2] m l missing eq by simp
  have 2: "layerPath \<notin> fst ` set (snd (assembleImageTar L fs outputDir))"
  proof
    assume "layerPath \<in> fst ` set (snd (assembleImageTar L fs outputDir))"
    then obtain c where c: "(layerPath, c) \<in> set (snd (addImages ?tw2 fs outputDir ms))"
      using eq by auto
    have "addImages ?tw2 fs outputDir ms = (fst (addImages ?tw2 fs outputDir ms), snd (addImages ?tw2 fs outputDir ms))"
      by simp
    from addImages_names [OF this c] missing
    have "(layerPath, c) \<in> set ?tw2" by simp
    with md missing show False
      by (auto split: option.splits)
  qed
  from 1 2 show ?thesis by simp
qed


theorem assembleImageTar_missing_layer_witness:
  "demoDir (joinPath ''output'' ''manifest.json'') = Some ''m''
   \<and> unmarshal_manifest demoLib ''m''
       = Some [\<lparr> Config = ''c.json'', RepoTags = [''m''], Layers = [''l1.tar'', ''l2.tar''] \<rparr>]
   \<and> ''l2.tar'' \<in> set [''l1.tar'', ''l2.tar'']
   \<and> demoDir (joinPath ''output'' ''l2.tar'') = None
   \<and> fst (assembleImageTar demoLib demoDir ''output'') = Some missingFile
   \<and> ''l2.tar'' \<notin> fst ` set (snd (assembleImageTar demoLib demoDir ''output''))"
proof -
  let ?m = "\<lparr> Config = ''c.json'', RepoTags = [''m''], Layers = [''l1.tar'', ''l2.tar''] \<rparr>"
  have 1: "demoDir (joinPath ''output'' ''manifest.json'') = Some ''m''"
    by (simp add: demoDir_def joinPath_def)
  have 2: "unmarshal_manifest demoLib ''m'' = Some [?m]"
    by (simp add: demoLib_def)
  have 3: "?m \<in> set [?m]"
    by simp
  have 4: "''l2.tar'' \<in> set (Layers ?m)"
    by simp
  have 5: "demoDir (joinPath ''output'' ''l2.tar'') = None"
    by (simp add: demoDir_def joinPath_def)
  from assembleImageTar_missing_layer [OF 1 2 3 4 5] 1 2 5 show ?thesis
    by simp
qed

text \<open>
  The claim as stated fails: with manifest.json, the config and the first layer present
  and the second layer absent, the assembly returns an error after writing three
  entries.
\<close>

theorem assembleImageTar_skip_counterexample:
  "assembleImageTar demoLib demoDir ''output''
     = (Some missingFile, [(''manifest.json'', ''m''), (''c.json'', ''{}''), (''l1.tar'', ''x'')])"
  by (simp add: assembleImageTar_def addFileToTar_def demoLib_def demoDir_def joinPath_def
        WrapError_def missingFile_def)

section \<open>The download loops: basic facts\<close>

lemma addEvents4_eq:
  "(addEvents4 evs0 x = (a, b, c, d)) = (\<exists>d0. x = (a, b, c, d0) \<and> d = evs0 @ d0)"
  by (cases x) auto

lemma addEvents4_fst [simp]: "fst (addEvents4 evs0 x) = fst x"
  by (cases x) auto

lemma writeResponse_frame:
  "writeResponse dest fs st body berr = (e, fs') \<Longrightarrow>
     (\<forall>p. p \<noteq> dest \<longrightarrow> fs' p = fs p) \<and> (fs dest \<noteq> None \<longrightarrow> fs' dest \<noteq> None)"
  by (auto simp: writeResponse_def split: if_splits option.splits)

lemma retryLoop_frame:
  "retryLoop tok url dest retries lastErr fs rs = (c, fs', rs', evs) \<Longrightarrow>
     (\<forall>p. p \<noteq> dest \<longrightarrow> fs' p = fs p) \<and> (fs dest \<noteq> None \<longrightarrow> fs' dest \<noteq> None)"
proof (induction rs arbitrary: retries lastErr fs evs)
  case Nil
  then show ?case by (auto split: if_splits)
next
  case (Cons r rs)
  show ?case
  proof (cases "retries < maxRetries")
    case False
    with Cons.prems show ?thesis by simp
  next
    case True
    show ?thesis
    proof (cases r)
      case NetError
      with Cons.prems True obtain evs0 r' le' where
        "retryLoop tok url dest r' le' fs rs = (c, fs', rs', evs0)"
        by (auto simp: Let_def addEvents4_eq)
      from Cons.IH [OF this] show ?thesis .
    next
      case (Response st h body berr)
      obtain e fs1 where w: "writeResponse dest fs st body berr = (e, fs1)" by force
      show ?thesis
      proof (cases e)
        case None
        with Cons.prems True Response w have "fs' = fs1" by (simp add: Let_def)
        with writeResponse_frame [OF w] show ?thesis by simp
      next
        case (Some err)
        with Cons.prems True Response w obtain evs0 r' le' where
          "retryLoop tok url dest r' le' fs1 rs = (c, fs', rs', evs0)"
          by (auto simp: Let_def addEvents4_eq)
        from Cons.IH [OF this] writeResponse_frame [OF w] show ?thesis by auto
      qed
    qed
  qed
qed

lemma retryLoop_events:
  "retryLoop tok url dest retries lastErr fs rs = (c, fs', rs', evs) \<Longrightarrow> e \<in> set evs \<Longrightarrow>
     isBlobGet e \<or> isSleep e"
proof (induction rs arbitrary: retries lastErr fs evs)
  case Nil
  then show ?case by (auto split: if_splits)
next
  case (Cons r rs)
  from Cons.prems show ?case
    by (auto simp: Let_def addEvents4_eq split: if_splits reply.splits option.splits prod.splits
          dest: Cons.IH)
qed

lemma retryLoop_budget:
  "retryLoop tok url dest retries lastErr fs rs = (c, fs', rs', evs) \<Longrightarrow> retries \<le> maxRetries \<Longrightarrow>
     length (filter isUnrangedGet evs) + retries \<le> maxRetries"
proof (induction rs arbitrary: retries lastErr fs evs)
  case Nil
  then show ?case by (auto split: if_splits)
next
  case (Cons r rs)
  show ?case
  proof (cases "retries < maxRetries")
    case False
    with Cons.prems show ?thesis by simp
  next
    case True
    let ?r' = "if getFileSize fs dest > 0 then retries else retries + 1"
    let ?req = "BlobGet url tok (if getFileSize fs dest > 0 then Some (getFileSize fs dest) else None)"
    have r': "?r' \<le> maxRetries" using True by simp
    have req: "length (filter isUnrangedGet [?req]) + retries = ?r'" by simp
    show ?thesis
    proof (cases r)
      case NetError
      with Cons.prems True obtain evs0 le' where
        rl: "retryLoop tok url dest ?r' le' fs rs = (c, fs', rs', evs0)"
        and evs: "evs = [?req, Sleep ((?r' + 1) * 2)] @ evs0"
        by (auto simp: Let_def addEvents4_eq)
      from Cons.IH [OF rl r'] evs show ?thesis by (auto split: if_splits)
    next
      case (Response st h body berr)
      obtain e fs1 where w: "writeResponse dest fs st body berr = (e, fs1)" by force
      show ?thesis
      proof (cases e)
        case None
        with Cons.prems True Response w have "evs = [?req]" by (simp add: Let_def)
        with True show ?thesis by (auto split: if_splits)
      next
        case (Some err)
        with Cons.prems True Response w obtain evs0 le' where
          rl: "retryLoop tok url dest ?r' le' fs1 rs = (c, fs', rs', evs0)"
          and evs: "evs = [?req, Sleep ((?r' + 1) * 2)] @ evs0"
          by (auto simp: Let_def addEvents4_eq)
        from Cons.IH [OF rl r'] evs show ?thesis by (auto split: if_splits)
      qed
    qed
  qed
qed

lemma retryLoop_first:
  "retryLoop tok url dest retries lastErr fs rs = (c, fs', rs', evs) \<Longrightarrow> evs \<noteq> [] \<Longrightarrow>
     hd evs = BlobGet url tok (if getFileSize fs dest > 0 then Some (getFileSize fs dest) else None)"
  by (cases rs) (auto simp: Let_def addEvents4_eq split: if_splits reply.splits option.splits prod.splits)

lemma retryLoop_no_events:
  "retryLoop tok url dest retries lastErr fs rs = (c, fs', rs', []) \<Longrightarrow> c \<noteq> ChunkDownloaded"
  by (cases rs) (auto simp: Let_def addEvents4_eq split: if_splits reply.splits option.splits prod.splits)


lemma fetchLoop_valid:
  "0 < sz \<Longrightarrow> getFileSize fs dest = sz \<Longrightarrow> validateFileIntegrity L fs dest dg = None \<Longrightarrow>
     fetchLoop L tok url dest sz dg fs rs = (Done (), fs, rs, [])"
  by (simp add: fetchLoop.simps)

lemma fetchLoop_invalid:
  "0 < sz \<Longrightarrow> getFileSize fs dest = sz \<Longrightarrow> validateFileIntegrity L fs dest dg = Some err \<Longrightarrow>
     fetchLoop L tok url dest sz dg fs rs
       = addEvents4 [Removed dest] (fetchLoop L tok url dest sz dg (fs(dest := None)) rs)"
  by (simp add: fetchLoop.simps)

lemma fetchLoop_cycle:
  assumes "\<not> (0 < sz \<and> getFileSize fs dest = sz)"
      and "retryLoop tok url dest 0 None
             (if 0 < sz \<and> sz < getFileSize fs dest then fs(dest \<mapsto> []) else fs) rs
           = (c, fs2, rs2, evs2)"
  shows "fetchLoop L tok url dest sz dg fs rs
           = (case c of
                ChunkDownloaded \<Rightarrow>
                  addEvents4 ((if 0 < sz \<and> sz < getFileSize fs dest then [Truncated dest] else [])
                              @ evs2)
                    (fetchLoop L tok url dest sz dg fs2 rs2)
              | Exhausted lastErr \<Rightarrow>
                  (Failed (WrapError ErrCodeImageDownload lastErr), fs2, rs2,
                   (if 0 < sz \<and> sz < getFileSize fs dest then [Truncated dest] else []) @ evs2)
              | Unfinished \<Rightarrow>
                  (Pending, fs2, rs2,
                   (if 0 < sz \<and> sz < getFileSize fs dest then [Truncated dest] else []) @ evs2))"
  using assms
  by (cases c) (auto simp: fetchLoop.simps [of L tok url dest sz dg fs rs] Let_def)

lemma fetchLoop_induct [case_names valid invalid chunk exhausted unfinished]:
  assumes valid: "\<And>fs rs. 0 < sz \<Longrightarrow> getFileSize fs dest = sz \<Longrightarrow>
             validateFileIntegrity L fs dest dg = None \<Longrightarrow> P fs rs"
      and invalid: "\<And>fs rs err. 0 < sz \<Longrightarrow> getFileSize fs dest = sz \<Longrightarrow>
             validateFileIntegrity L fs dest dg = Some err \<Longrightarrow> P (fs(dest := None)) rs \<Longrightarrow> P fs rs"
      and chunk: "\<And>fs rs fs2 rs2 evs2. \<not> (0 < sz \<and> getFileSize fs dest = sz) \<Longrightarrow>
             retryLoop tok url dest 0 None
               (if 0 < sz \<and> sz < getFileSize fs dest then fs(dest \<mapsto> []) else fs) rs
             = (ChunkDownloaded, fs2, rs2, evs2) \<Longrightarrow> P fs2 rs2 \<Longrightarrow> P fs rs"
      and exhausted: "\<And>fs rs lastErr fs2 rs2 evs2. \<not> (0 < sz \<and> getFileSize fs dest = sz) \<Longrightarrow>
             retryLoop tok url dest 0 None
               (if 0 < sz \<and> sz < getFileSize fs dest then fs(dest \<mapsto> []) else fs) rs
             = (Exhausted lastErr, fs2, rs2, evs2) \<Longrightarrow> P fs rs"
      and unfinished: "\<And>fs rs fs2 rs2 evs2. \<not> (0 < sz \<and> getFileSize fs dest = sz) \<Longrightarrow>
             retryLoop tok url dest 0 None
               (if 0 < sz \<and> sz < getFileSize fs dest then fs(dest \<mapsto> []) else fs) rs
             = (Unfinished, fs2, rs2, evs2) \<Longrightarrow> P fs rs"
  shows "P fs rs"
proof -
  have "L' = L \<and> tok' = tok \<and> url' = url \<and> dest' = dest \<and> sz' = sz \<and> dg' = dg \<longrightarrow> P fs rs"
    for L' tok' url' dest' sz' dg'
  proof (induction L' tok' url' dest' sz' dg' fs rs rule: fetchLoop.induct)
    case (1 L' tok' url' dest' sz' dg' fs rs)
    show ?case
    proof
      assume eq: "L' = L \<and> tok' = tok \<and> url' = url \<and> dest' = dest \<and> sz' = sz \<and> dg' = dg"
      show "P fs rs"
      proof (cases "0 < sz \<and> getFileSize fs dest = sz")
        case True
        show ?thesis
        proof (cases "validateFileIntegrity L fs dest dg")
          case None
          with True valid show ?thesis by blast
        next
          case (Some err)
          from True Some eq have a: "0 < sz' \<and> getFileSize fs dest' = sz'"
            and b: "validateFileIntegrity L' fs dest' dg' = Some err" by simp_all
          from "1.IH"(1) [OF a b] eq have "P (fs(dest := None)) rs" by blast
          with True Some invalid show ?thesis by blast
        qed
      next
        case False
        let ?fs1 = "if 0 < sz \<and> sz < getFileSize fs dest then fs(dest \<mapsto> []) else fs"
        obtain c fs2 rs2 evs2 where
          rl: "retryLoop tok url dest 0 None ?fs1 rs = (c, fs2, rs2, evs2)"
          by (metis prod_cases4)
        show ?thesis
        proof (cases c)
          case ChunkDownloaded
          from eq False have F: "\<not> (0 < sz' \<and> getFileSize fs dest' = sz')" by simp
          from eq have e: "tok' = tok" "url' = url" "dest' = dest" "sz' = sz"
            by simp_all
          have rl':
            "(ChunkDownloaded, fs2, rs2, evs2) = retryLoop tok' url' dest' 0 None
               (if 0 < sz' \<and> sz' < getFileSize fs dest' then fs(dest' \<mapsto> []) else fs) rs"
            unfolding e using rl [unfolded ChunkDownloaded] by (rule sym)
          from "1.IH"(2) [OF F refl refl refl rl' refl refl refl] eq
          have "P fs2 rs2" by blast
          with chunk [OF False] rl ChunkDownloaded show ?thesis by blast
        next
          case (Exhausted x2)
          with exhausted [OF False] rl show ?thesis by blast
        next
          case Unfinished
          with unfinished [OF False] rl show ?thesis by blast
        qed
      qed
    qed
  qed
  then show ?thesis by simp
qed


lemma fetchLoop_Done:
  "fetchLoop L tok url dest sz dg fs rs = (Done u, fs', rs', evs) \<Longrightarrow>
     0 < sz \<and> getFileSize fs' dest = sz \<and> validateFileIntegrity L fs' dest dg = None"
proof (induction fs rs arbitrary: evs rule: fetchLoop_induct [where L = L and tok = tok and url = url and dest = dest
    and sz = sz and dg = dg])
  case (valid fs rs)
  with fetchLoop_valid [of sz fs dest L dg tok url rs] show ?case by simp
next
  case (invalid fs rs err)
  from invalid.prems fetchLoop_invalid [OF invalid.hyps(1,2,3), of tok url rs]
  obtain evs0 where "fetchLoop L tok url dest sz dg (fs(dest := None)) rs = (Done u, fs', rs', evs0)"
    by (auto simp: addEvents4_eq)
  from invalid.IH [OF this] show ?case .
next
  case (chunk fs rs fs2 rs2 evs2)
  from chunk.prems fetchLoop_cycle [OF chunk.hyps(1,2), of L dg]
  obtain evs0 where "fetchLoop L tok url dest sz dg fs2 rs2 = (Done u, fs', rs', evs0)"
    by (auto simp: addEvents4_eq)
  from chunk.IH [OF this] show ?case .
next
  case (exhausted fs rs lastErr fs2 rs2 evs2)
  from exhausted.prems fetchLoop_cycle [OF exhausted.hyps(1,2), of L dg] show ?case by simp
next
  case (unfinished fs rs fs2 rs2 evs2)
  from unfinished.prems fetchLoop_cycle [OF unfinished.hyps(1,2), of L dg] show ?case by simp
qed

lemma fetchLoop_Failed:
  "fetchLoop L tok url dest sz dg fs rs = (Failed err, fs', rs', evs) \<Longrightarrow>
     \<exists>lastErr. err = AppError ErrCodeImageDownload lastErr"
proof (induction fs rs arbitrary: evs rule: fetchLoop_induct [where L = L and tok = tok and url = url and dest = dest
    and sz = sz and dg = dg])
  case (valid fs rs)
  with fetchLoop_valid [of sz fs dest L dg tok url rs] show ?case by simp
next
  case (invalid fs rs e)
  from invalid.prems fetchLoop_invalid [OF invalid.hyps(1,2,3), of tok url rs]
  obtain evs0 where "fetchLoop L tok url dest sz dg (fs(dest := None)) rs = (Failed err, fs', rs', evs0)"
    by (auto simp: addEvents4_eq)
  from invalid.IH [OF this] show ?case .
next
  case (chunk fs rs fs2 rs2 evs2)
  from chunk.prems fetchLoop_cycle [OF chunk.hyps(1,2), of L dg]
  obtain evs0 where "fetchLoop L tok url dest sz dg fs2 rs2 = (Failed err, fs', rs', evs0)"
    by (auto simp: addEvents4_eq)
  from chunk.IH [OF this] show ?case .
next
  case (exhausted fs rs lastErr fs2 rs2 evs2)
  from exhausted.prems fetchLoop_cycle [OF exhausted.hyps(1,2), of L dg] show ?case
    by (auto simp: WrapError_def)
next
  case (unfinished fs rs fs2 rs2 evs2)
  from unfinished.prems fetchLoop_cycle [OF unfinished.hyps(1,2), of L dg] show ?case by simp
qed

lemma fetchLoop_frame:
  "fetchLoop L tok url dest sz dg fs rs = (out, fs', rs', evs) \<Longrightarrow> p \<noteq> dest \<Longrightarrow> fs' p = fs p"
proof (induction fs rs arbitrary: evs rule: fetchLoop_induct [where L = L and tok = tok and url = url and dest = dest
    and sz = sz and dg = dg])
  case (valid fs rs)
  with fetchLoop_valid [of sz fs dest L dg tok url rs] show ?case by simp
next
  case (invalid fs rs e)
  from invalid.prems fetchLoop_invalid [OF invalid.hyps(1,2,3), of tok url rs]
  obtain evs0 where "fetchLoop L tok url dest sz dg (fs(dest := None)) rs = (out, fs', rs', evs0)"
    by (auto simp: addEvents4_eq)
  from invalid.IH [OF this] invalid.prems show ?case by simp
next
  case (chunk fs rs fs2 rs2 evs2)
  from chunk.prems fetchLoop_cycle [OF chunk.hyps(1,2), of L dg]
  obtain evs0 where "fetchLoop L tok url dest sz dg fs2 rs2 = (out, fs', rs', evs0)"
    by (auto simp: addEvents4_eq)
  from chunk.IH [OF this] chunk.prems retryLoop_frame [OF chunk.hyps(2)] show ?case
    by (simp split: if_splits)
next
  case (exhausted fs rs lastErr fs2 rs2 evs2)
  from exhausted.prems fetchLoop_cycle [OF exhausted.hyps(1,2), of L dg]
    retryLoop_frame [OF exhausted.hyps(2)] show ?case
    by (simp split: if_splits)
next
  case (unfinished fs rs fs2 rs2 evs2)
  from unfinished.prems fetchLoop_cycle [OF unfinished.hyps(1,2), of L dg]
    retryLoop_frame [OF unfinished.hyps(2)] show ?case
    by (simp split: if_splits)
qed

lemma retryLoop_no_Removed:
  "retryLoop tok url dest retries lastErr fs rs = (c, fs', rs', evs) \<Longrightarrow> Removed p \<notin> set evs"
  using retryLoop_events [of tok url dest retries lastErr fs rs c fs' rs' evs "Removed p"]
  by auto

lemma fetchLoop_kept:
  "fetchLoop L tok url dest sz dg fs rs = (out, fs', rs', evs) \<Longrightarrow> Removed dest \<notin> set evs \<Longrightarrow>
     fs dest \<noteq> None \<Longrightarrow> fs' dest \<noteq> None"
proof (induction fs rs arbitrary: evs rule: fetchLoop_induct [where L = L and tok = tok and url = url and dest = dest
    and sz = sz and dg = dg])
  case (valid fs rs)
  with fetchLoop_valid [of sz fs dest L dg tok url rs] show ?case by simp
next
  case (invalid fs rs e)
  from invalid.prems fetchLoop_invalid [OF invalid.hyps(1,2,3), of tok url rs]
  show ?case
    by (auto simp: addEvents4_eq)
next
  case (chunk fs rs fs2 rs2 evs2)
  from chunk.prems fetchLoop_cycle [OF chunk.hyps(1,2), of L dg]
  obtain evs0 pre where f: "fetchLoop L tok url dest sz dg fs2 rs2 = (out, fs', rs', evs0)"
    and "evs = pre @ evs0"
    by (auto simp: addEvents4_eq)
  with chunk.prems have "Removed dest \<notin> set evs0" by auto
  moreover from retryLoop_frame [OF chunk.hyps(2)] chunk.prems have "fs2 dest \<noteq> None"
    by (simp split: if_splits)
  ultimately show ?case using chunk.IH [OF f] by simp
next
  case (exhausted fs rs lastErr fs2 rs2 evs2)
  from exhausted.prems fetchLoop_cycle [OF exhausted.hyps(1,2), of L dg]
    retryLoop_frame [OF exhausted.hyps(2)] show ?case
    by (simp split: if_splits)
next
  case (unfinished fs rs fs2 rs2 evs2)
  from unfinished.prems fetchLoop_cycle [OF unfinished.hyps(1,2), of L dg]
    retryLoop_frame [OF unfinished.hyps(2)] show ?case
    by (simp split: if_splits)
qed

section \<open>downloadLayerWithRetry: result, resumption, truncation, corrupt files\<close>

lemma addEvents4_eq2:
  "((a, b, c, d) = addEvents4 evs0 x) = (\<exists>d0. x = (a, b, c, d0) \<and> d = evs0 @ d0)"
  by (cases x) auto

lemma validate_None:
  "validateFileIntegrity L fs p dg = None \<Longrightarrow>
     \<exists>bs. fs p = Some bs \<and> ''sha256:'' @ sha256_hex L bs = dg"
  by (auto simp: validateFileIntegrity_def WrapError_def split: option.splits if_splits)


lemma getFileSize_pos:
  "0 < getFileSize fs p \<Longrightarrow> \<exists>bs. fs p = Some bs \<and> int (length bs) = getFileSize fs p"
  by (auto simp: getFileSize_def split: option.splits)

lemma getToken_events:
  "getToken L imageRef rs = (t, rs1, evs1) \<Longrightarrow> e \<in> set evs1 \<Longrightarrow> isAuthRequest e"
  by (auto simp: getToken_def requestToken_def Let_def split: list.splits reply.splits if_splits option.splits)

lemma getToken_Failed:
  "getToken L imageRef rs = (Failed err, rs1, evs1) \<Longrightarrow>
     Code err = Some ErrCodeNetworkError \<or> Code err = Some ErrCodeAuthError"
  by (auto simp: getToken_def requestToken_def Let_def WrapError_def
      split: list.splits reply.splits if_splits option.splits)

lemma downloadLayerWithRetry_unfold:
  "downloadLayerWithRetry L imageRef url dest sz dg fs rs =
     (if (0 < sz \<and> getFileSize fs dest = sz)
         \<and> (dg = [] \<or> validateFileIntegrity L fs dest dg = None)
      then (Done (), fs, rs, [])
      else
        (case getToken L imageRef rs of
           (Pending, rs1, evs1) \<Rightarrow>
             (Pending, if 0 < sz \<and> getFileSize fs dest = sz then fs(dest := None) else fs, rs1,
              (if 0 < sz \<and> getFileSize fs dest = sz then [Removed dest] else []) @ evs1)
         | (Failed err, rs1, evs1) \<Rightarrow>
             (Failed (AppError ErrCodeAuthError (Some err)),
              if 0 < sz \<and> getFileSize fs dest = sz then fs(dest := None) else fs, rs1,
              (if 0 < sz \<and> getFileSize fs dest = sz then [Removed dest] else []) @ evs1)
         | (Done token, rs1, evs1) \<Rightarrow>
             addEvents4 ((if 0 < sz \<and> getFileSize fs dest = sz then [Removed dest] else []) @ evs1)
               (fetchLoop L token url dest sz dg
                  (if 0 < sz \<and> getFileSize fs dest = sz then fs(dest := None) else fs) rs1)))"
proof -
  define C where "C = (0 < sz \<and> getFileSize fs dest = sz)"
  have pos: "C \<Longrightarrow> 0 < getFileSize fs dest"
    by (simp add: C_def)
  show ?thesis
    unfolding downloadLayerWithRetry_def Let_def WrapError_def C_def [symmetric]
    by (cases C; cases "dg = []"; cases "validateFileIntegrity L fs dest dg = None")
       (auto simp: pos)
qed

lemma if_eqD1: "(if c then a else b) = r \<Longrightarrow> c \<Longrightarrow> a = r"
  by simp

lemma if_eqD2: "(if c then a else b) = r \<Longrightarrow> \<not> c \<Longrightarrow> b = r"
  by simp

text \<open>The three ways downloadLayerWithRetry proceeds.\<close>

lemma downloadLayerWithRetry_cases [consumes 1, case_names early auth loop]:
  assumes run: "downloadLayerWithRetry L imageRef url dest sz dg fs rs = (out, fs', rs', evs)"
  obtains
    (early) "0 < sz" "getFileSize fs dest = sz"
            "dg = [] \<or> validateFileIntegrity L fs dest dg = None"
            "out = Done ()" "fs' = fs" "rs' = rs" "evs = []"
  | (auth) evs1 where
            "dg \<noteq> [] \<or> \<not> (0 < sz \<and> getFileSize fs dest = sz)"
            "out = Pending \<or> (\<exists>err. out = Failed (AppError ErrCodeAuthError (Some err)))"
            "fs' = (if 0 < sz \<and> getFileSize fs dest = sz then fs(dest := None) else fs)"
            "evs = (if 0 < sz \<and> getFileSize fs dest = sz then [Removed dest] else []) @ evs1"
            "\<forall>e\<in>set evs1. isAuthRequest e"
            "\<forall>tok. fst (getToken L imageRef rs) \<noteq> Done tok"
  | (loop) tok rs1 evs1 evs2 where
            "dg \<noteq> [] \<or> \<not> (0 < sz \<and> getFileSize fs dest = sz)"
            "0 < sz \<and> getFileSize fs dest = sz \<longrightarrow> validateFileIntegrity L fs dest dg \<noteq> None"
            "getToken L imageRef rs = (Done tok, rs1, evs1)"
            "fetchLoop L tok url dest sz dg
               (if 0 < sz \<and> getFileSize fs dest = sz then fs(dest := None) else fs) rs1
             = (out, fs', rs', evs2)"
            "evs = (if 0 < sz \<and> getFileSize fs dest = sz then [Removed dest] else []) @ evs1 @ evs2"
            "\<forall>e\<in>set evs1. isAuthRequest e"
proof -
  let ?complete = "0 < sz \<and> getFileSize fs dest = sz"
  let ?fs0 = "if ?complete then fs(dest := None) else fs"
  let ?evs0 = "if ?complete then [Removed dest] else []"
  note run' = run [unfolded downloadLayerWithRetry_unfold]
  show thesis
  proof (cases "?complete \<and> (dg = [] \<or> validateFileIntegrity L fs dest dg = None)")
    case True
    from if_eqD1 [OF run' True] have "(Done (), fs, rs, []) = (out, fs', rs', evs)" .
    then have "out = Done ()" "fs' = fs" "rs' = rs" "evs = []"
      by simp_all
    with True early show ?thesis by blast
  next
    case False
    then have 1: "dg \<noteq> [] \<or> \<not> ?complete"
      and 2: "?complete \<longrightarrow> validateFileIntegrity L fs dest dg \<noteq> None" by auto
    obtain t rs1 evs1 where gt: "getToken L imageRef rs = (t, rs1, evs1)"
      by (metis prod_cases3)
    from getToken_events [OF gt] have ev: "\<forall>e\<in>set evs1. isAuthRequest e" by blast
    from if_eqD2 [OF run' False] have run'':
      "(case (t, rs1, evs1) of
          (Pending, rs1, evs1) \<Rightarrow> (Pending, ?fs0, rs1, ?evs0 @ evs1)
        | (Failed err, rs1, evs1) \<Rightarrow>
            (Failed (AppError ErrCodeAuthError (Some err)), ?fs0, rs1, ?evs0 @ evs1)
        | (Done token, rs1, evs1) \<Rightarrow>
            addEvents4 (?evs0 @ evs1) (fetchLoop L token url dest sz dg ?fs0 rs1))
       = (out, fs', rs', evs)"
      by (simp only: gt)
    show ?thesis
    proof (cases t)
      case Pending
      with run'' have "(Pending, ?fs0, rs1, ?evs0 @ evs1) = (out, fs', rs', evs)"
        by (simp only: prod.case outcome.case)
      then have "out = Pending" "fs' = ?fs0" "evs = ?evs0 @ evs1"
        by simp_all
      moreover from gt Pending have "\<forall>tok. fst (getToken L imageRef rs) \<noteq> Done tok"
        by simp
      ultimately show ?thesis using auth [OF 1 _ _ _ ev] by blast
    next
      case (Failed err)
      with run'' have "(Failed (AppError ErrCodeAuthError (Some err)), ?fs0, rs1, ?evs0 @ evs1)
          = (out, fs', rs', evs)"
        by (simp only: prod.case outcome.case)
      then have "out = Failed (AppError ErrCodeAuthError (Some err))"
        "fs' = ?fs0" "evs = ?evs0 @ evs1"
        by simp_all
      moreover from gt Failed have "\<forall>tok. fst (getToken L imageRef rs) \<noteq> Done tok"
        by simp
      ultimately show ?thesis using auth [OF 1 _ _ _ ev] by blast
    next
      case (Done tok)
      with run'' have "addEvents4 (?evs0 @ evs1) (fetchLoop L tok url dest sz dg ?fs0 rs1)
          = (out, fs', rs', evs)"
        by (simp only: prod.case outcome.case)
      then obtain evs2 where
        "fetchLoop L tok url dest sz dg ?fs0 rs1 = (out, fs', rs', evs2)"
        "evs = (?evs0 @ evs1) @ evs2"
        unfolding addEvents4_eq by blast
      with loop [OF 1 2 _ _ _ ev] gt Done show ?thesis by simp
    qed
  qed
qed

lemma downloadLayerWithRetry_Done:
  assumes "downloadLayerWithRetry L imageRef url dest sz dg fs rs = (Done u, fs', rs', evs)"
  shows "0 < sz \<and> (\<exists>bs. fs' dest = Some bs \<and> int (length bs) = sz
            \<and> (dg \<noteq> [] \<longrightarrow> ''sha256:'' @ sha256_hex L bs = dg))"
  using assms
proof (cases rule: downloadLayerWithRetry_cases)
  case early
  from getFileSize_pos [of fs dest] early obtain bs where
    bs: "fs dest = Some bs" "int (length bs) = sz" by auto
  with early validate_None [of L fs dest dg] show ?thesis by auto
next
  case (auth evs1)
  then show ?thesis by auto
next
  case (loop tok rs1 evs1 evs2)
  from fetchLoop_Done [OF loop(4)] have sz: "0 < sz" and g: "getFileSize fs' dest = sz"
    and v: "validateFileIntegrity L fs' dest dg = None" by simp_all
  from getFileSize_pos [of fs' dest] sz g obtain bs where
    bs: "fs' dest = Some bs" "int (length bs) = sz" by auto
  with validate_None [OF v] sz show ?thesis by auto
qed

lemma downloadLayerWithRetry_frame:
  assumes "downloadLayerWithRetry L imageRef url dest sz dg fs rs = (out, fs', rs', evs)"
      and "p \<noteq> dest"
  shows "fs' p = fs p"
  using assms
proof (cases rule: downloadLayerWithRetry_cases)
  case early
  then show ?thesis by simp
next
  case (auth evs1)
  with assms(2) show ?thesis by simp
next
  case (loop tok rs1 evs1 evs2)
  from fetchLoop_frame [OF loop(4) assms(2)] assms(2) show ?thesis by simp
qed

text \<open>A probe answered with status 200: no token is needed.\<close>

lemma getToken_200:
  "getToken L imageRef (Response 200 h body berr # rs) = (Done [], rs, [Probe (probeURL imageRef)])"
  by (simp add: getToken_def)

lemma downloadLayerWithRetry_no_auth:
  assumes n: "\<not> (0 < sz \<and> getFileSize fs dest = sz)"
  shows "downloadLayerWithRetry L imageRef url dest sz dg fs (Response 200 h body berr # rs)
           = addEvents4 [Probe (probeURL imageRef)] (fetchLoop L [] url dest sz dg fs rs)"
proof -
  have n2: "\<not> ((0 < sz \<and> getFileSize fs dest = sz)
              \<and> (dg = [] \<or> validateFileIntegrity L fs dest dg = None))"
    using n by blast
  show ?thesis
    unfolding downloadLayerWithRetry_unfold getToken_200 if_not_P [OF n2] if_not_P [OF n]
    by simp
qed

lemma writeResponse_written:
  "writeResponse dest fs st body berr = (e, fs1) \<Longrightarrow>
     fs1 dest = written (fs dest) (Response st h body berr)"
  by (auto simp: writeResponse_def split: if_splits option.splits)

lemma retryLoop_stop:
  "\<not> retries < maxRetries \<Longrightarrow>
     retryLoop tok url dest retries lastErr fs rs = (Exhausted lastErr, fs, rs, [])"
  by (cases rs) simp_all

lemma getFileSize_zero: "getFileSize fs p \<le> 0 \<Longrightarrow> fs p = None \<or> fs p = Some []"
  by (auto simp: getFileSize_def split: option.splits)

lemma retryLoop_suffix:
  "retryLoop tok url dest retries lastErr fs rs = (c, fs', rs', evs) \<Longrightarrow> \<exists>used. rs = used @ rs'"
proof (induction rs arbitrary: retries lastErr fs evs)
  case Nil
  then show ?case by (auto split: if_splits)
next
  case (Cons r rs)
  show ?case
  proof (cases "retries < maxRetries")
    case False
    with Cons.prems retryLoop_stop [OF False, of tok url dest lastErr fs "r # rs"] show ?thesis
      by simp
  next
    case True
    show ?thesis
    proof (cases r)
      case NetError
      with Cons.prems True obtain evs0 r' le' where
        "retryLoop tok url dest r' le' fs rs = (c, fs', rs', evs0)"
        by (auto simp: Let_def addEvents4_eq)
      from Cons.IH [OF this] obtain used where "rs = used @ rs'" by blast
      then have "r # rs = (r # used) @ rs'" by simp
      then show ?thesis by blast
    next
      case (Response st h body berr)
      obtain e fs1 where w: "writeResponse dest fs st body berr = (e, fs1)" by force
      show ?thesis
      proof (cases e)
        case None
        with Cons.prems True Response w have "rs' = rs" by (simp add: Let_def)
        then have "r # rs = [r] @ rs'" by simp
        then show ?thesis by blast
      next
        case (Some err)
        with Cons.prems True Response w obtain evs0 r' le' where
          "retryLoop tok url dest r' le' fs1 rs = (c, fs', rs', evs0)"
          by (auto simp: Let_def addEvents4_eq)
        from Cons.IH [OF this] obtain used where "rs = used @ rs'" by blast
        then have "r # rs = (r # used) @ rs'" by simp
        then show ?thesis by blast
      qed
    qed
  qed
qed

text \<open>
  A retry cycle that ends with the budget used up. Its last attempt found the file
  empty or missing (only such an attempt is counted), sent a GET with no Range header
  and failed; after the sleep the cycle ends, and the file is as the reply to that
  attempt left it.
\<close>

lemma retryLoop_exhausted_last:
  "retryLoop tok url dest retries lastErr0 fs rs = (Exhausted lastErr, fs', rs', evs) \<Longrightarrow>
   retries < maxRetries \<Longrightarrow>
     \<exists>rsa r f0 evsa. rs = rsa @ r # rs' \<and> (f0 = None \<or> f0 = Some [])
        \<and> fs' dest = written f0 r
        \<and> evs = evsa @ [BlobGet url tok None, Sleep ((maxRetries + 1) * 2)]"
proof (induction rs arbitrary: retries lastErr0 fs evs)
  case Nil
  then show ?case by simp
next
  case (Cons r rs)
  let ?sz = "getFileSize fs dest"
  let ?r' = "if ?sz > 0 then retries else retries + 1"
  let ?req = "BlobGet url tok (if ?sz > 0 then Some ?sz else None)"
  have step: "\<exists>rsa r0 f0 evsa. r # rs = rsa @ r0 # rs' \<and> (f0 = None \<or> f0 = Some [])
        \<and> fs' dest = written f0 r0
        \<and> evs = evsa @ [BlobGet url tok None, Sleep ((maxRetries + 1) * 2)]"
    if rl: "retryLoop tok url dest ?r' le' fs1 rs = (Exhausted lastErr, fs', rs', evs0)"
      and evs: "evs = [?req, Sleep ((?r' + 1) * 2)] @ evs0"
      and w: "fs1 dest = written (fs dest) r"
    for le' fs1 evs0
  proof (cases "?r' < maxRetries")
    case True
    from Cons.IH [OF rl True] obtain rsa r0 f0 evsa where
      "rs = rsa @ r0 # rs'" "f0 = None \<or> f0 = Some []" "fs' dest = written f0 r0"
      "evs0 = evsa @ [BlobGet url tok None, Sleep ((maxRetries + 1) * 2)]"
      by blast
    with evs have "r # rs = (r # rsa) @ r0 # rs'" "f0 = None \<or> f0 = Some []"
      "fs' dest = written f0 r0"
      "evs = ([?req, Sleep ((?r' + 1) * 2)] @ evsa)
               @ [BlobGet url tok None, Sleep ((maxRetries + 1) * 2)]"
      by simp_all
    then show ?thesis by blast
  next
    case False
    from rl retryLoop_stop [OF False, of tok url dest le' fs1 rs]
    have e: "fs' = fs1" "rs' = rs" "evs0 = []" by simp_all
    from False Cons.prems(2) have z: "\<not> ?sz > 0" and m: "retries + 1 = maxRetries"
      by (auto split: if_splits)
    from z getFileSize_zero [of fs dest] have f: "fs dest = None \<or> fs dest = Some []"
      by simp
    from evs e z m have "evs = [] @ [BlobGet url tok None, Sleep ((maxRetries + 1) * 2)]"
      by simp
    moreover from e have "r # rs = [] @ r # rs'" by simp
    moreover from e w have "fs' dest = written (fs dest) r" by simp
    ultimately show ?thesis using f by blast
  qed
  show ?case
  proof (cases r)
    case NetError
    with Cons.prems obtain evs0 where
      rl: "retryLoop tok url dest ?r' (Some (WrapError ErrCodeNetworkError (Some ExternalError)))
             fs rs = (Exhausted lastErr, fs', rs', evs0)"
      and evs: "evs = [?req, Sleep ((?r' + 1) * 2)] @ evs0"
      by (auto simp: Let_def addEvents4_eq)
    from NetError have "fs dest = written (fs dest) r" by simp
    from step [OF rl evs this] show ?thesis .
  next
    case (Response st h body berr)
    obtain e fs1 where w: "writeResponse dest fs st body berr = (e, fs1)" by force
    show ?thesis
    proof (cases e)
      case None
      with Cons.prems Response w show ?thesis by (simp add: Let_def)
    next
      case (Some err)
      with Cons.prems Response w obtain evs0 where
        rl: "retryLoop tok url dest ?r' (Some err) fs1 rs = (Exhausted lastErr, fs', rs', evs0)"
        and evs: "evs = [?req, Sleep ((?r' + 1) * 2)] @ evs0"
        by (auto simp: Let_def addEvents4_eq)
      from writeResponse_written [OF w, of h] Response have "fs1 dest = written (fs dest) r"
        by simp
      from step [OF rl evs this] show ?thesis .
    qed
  qed
qed

lemma fetchLoop_exhausted_last:
  "fetchLoop L tok url dest sz dg fs rs = (Failed err, fs', rs', evs) \<Longrightarrow>
     \<exists>rsa r f0 evsa. rs = rsa @ r # rs' \<and> (f0 = None \<or> f0 = Some [])
        \<and> fs' dest = written f0 r
        \<and> evs = evsa @ [BlobGet url tok None, Sleep ((maxRetries + 1) * 2)]"
proof (induction fs rs arbitrary: evs rule: fetchLoop_induct [where L = L and tok = tok and url = url and dest = dest
    and sz = sz and dg = dg])
  case (valid fs rs)
  with fetchLoop_valid [of sz fs dest L dg tok url rs] show ?case by simp
next
  case (invalid fs rs e)
  from invalid.prems fetchLoop_invalid [OF invalid.hyps(1,2,3), of tok url rs]
  obtain evs0 where f: "fetchLoop L tok url dest sz dg (fs(dest := None)) rs = (Failed err, fs', rs', evs0)"
    and evs: "evs = [Removed dest] @ evs0"
    by (auto simp: addEvents4_eq)
  from invalid.IH [OF f] obtain rsa r f0 evsa where
    "rs = rsa @ r # rs'" "f0 = None \<or> f0 = Some []" "fs' dest = written f0 r"
    "evs0 = evsa @ [BlobGet url tok None, Sleep ((maxRetries + 1) * 2)]"
    by blast
  with evs have "rs = rsa @ r # rs'" "f0 = None \<or> f0 = Some []" "fs' dest = written f0 r"
    "evs = ([Removed dest] @ evsa) @ [BlobGet url tok None, Sleep ((maxRetries + 1) * 2)]"
    by simp_all
  then show ?case by blast
next
  case (chunk fs rs fs2 rs2 evs2)
  from chunk.prems fetchLoop_cycle [OF chunk.hyps(1,2), of L dg]
  obtain evs0 pre where f: "fetchLoop L tok url dest sz dg fs2 rs2 = (Failed err, fs', rs', evs0)"
    and evs: "evs = pre @ evs0"
    by (auto simp: addEvents4_eq)
  from retryLoop_suffix [OF chunk.hyps(2)] obtain used where u: "rs = used @ rs2" by blast
  from chunk.IH [OF f] obtain rsa r f0 evsa where
    "rs2 = rsa @ r # rs'" "f0 = None \<or> f0 = Some []" "fs' dest = written f0 r"
    "evs0 = evsa @ [BlobGet url tok None, Sleep ((maxRetries + 1) * 2)]"
    by blast
  with evs u have "rs = (used @ rsa) @ r # rs'" "f0 = None \<or> f0 = Some []"
    "fs' dest = written f0 r"
    "evs = (pre @ evsa) @ [BlobGet url tok None, Sleep ((maxRetries + 1) * 2)]"
    by simp_all
  then show ?case by blast
next
  case (exhausted fs rs lastErr fs2 rs2 evs2)
  from exhausted.prems fetchLoop_cycle [OF exhausted.hyps(1,2), of L dg]
  have e: "fs2 = fs'" "rs2 = rs'"
    and evs: "evs = (if 0 < sz \<and> sz < getFileSize fs dest then [Truncated dest] else []) @ evs2"
    by simp_all
  have m: "0 < maxRetries" by (simp add: maxRetries_def)
  from retryLoop_exhausted_last [OF exhausted.hyps(2) m] e obtain rsa r f0 evsa where
    "rs = rsa @ r # rs'" "f0 = None \<or> f0 = Some []" "fs' dest = written f0 r"
    "evs2 = evsa @ [BlobGet url tok None, Sleep ((maxRetries + 1) * 2)]"
    by blast
  with evs have "rs = rsa @ r # rs'" "f0 = None \<or> f0 = Some []" "fs' dest = written f0 r"
    "evs = ((if 0 < sz \<and> sz < getFileSize fs dest then [Truncated dest] else []) @ evsa)
             @ [BlobGet url tok None, Sleep ((maxRetries + 1) * 2)]"
    by simp_all
  then show ?case by blast
next
  case (unfinished fs rs fs2 rs2 evs2)
  from unfinished.prems fetchLoop_cycle [OF unfinished.hyps(1,2), of L dg] show ?case by simp
qed

lemma getToken_suffix:
  assumes g: "getToken L imageRef rs = (t, rs1, evs1)"
  shows "\<exists>used. rs = used @ rs1"
proof (cases rs)
  case Nil
  with g show ?thesis by (simp add: getToken_def)
next
  case (Cons r rs0)
  have "rs1 = rs0 \<or> (\<exists>r1. rs0 = r1 # rs1)"
    using g Cons
    by (cases rs0)
       (auto simp: getToken_def requestToken_def Let_def
          split: reply.splits if_splits option.splits)
  then show ?thesis
  proof
    assume "rs1 = rs0"
    with Cons have "rs = [r] @ rs1" by simp
    then show ?thesis by blast
  next
    assume "\<exists>r1. rs0 = r1 # rs1"
    then obtain r1 where "rs0 = r1 # rs1" by blast
    with Cons have "rs = [r, r1] @ rs1" by simp
    then show ?thesis by blast
  qed
qed

text \<open>
  C3, as amended. A call that returns nil leaves at the destination a file of exactly
  expectedSize bytes; its digest is expectedDigest when expectedDigest is not empty
  (with an empty expectedDigest a file of the right size is accepted as it is).

  A call that fails by retry exhaustion leaves in place what is at the destination:
  the last thing it did was the GET of its last attempt (with no Range header: that
  attempt found the file empty or missing) and the sleep after it, and the file is what
  the reply to that GET left, so the bytes of a 200 response that broke off, or of a
  206 response appended to an empty file, are there. Moreover a call, however it ends,
  leaves a file where it found one, unless a file of the full size failed its digest
  check during the call (event \<open>Removed\<close>).
\<close>

theorem downloadLayerWithRetry_contract:
  assumes "downloadLayerWithRetry L imageRef url dest sz dg fs rs = (out, fs', rs', evs)"
  shows "(out = Done () \<and> dg \<noteq> [] \<longrightarrow>
            (\<exists>bs. fs' dest = Some bs \<and> int (length bs) = sz \<and> ''sha256:'' @ sha256_hex L bs = dg))
       \<and> (out = Done () \<and> dg = [] \<longrightarrow> (\<exists>bs. fs' dest = Some bs \<and> int (length bs) = sz))
       \<and> ((\<exists>lastErr. out = Failed (AppError ErrCodeImageDownload lastErr)) \<longrightarrow>
            (\<exists>rsa r f0 evsa tok. rs = rsa @ r # rs' \<and> (f0 = None \<or> f0 = Some [])
               \<and> fs' dest = written f0 r
               \<and> evs = evsa @ [BlobGet url tok None, Sleep ((maxRetries + 1) * 2)]))
       \<and> (fs dest \<noteq> None \<and> Removed dest \<notin> set evs \<longrightarrow> fs' dest \<noteq> None)"
proof -
  have 1: "out = Done () \<Longrightarrow> \<exists>bs. fs' dest = Some bs \<and> int (length bs) = sz
      \<and> (dg \<noteq> [] \<longrightarrow> ''sha256:'' @ sha256_hex L bs = dg)"
    using downloadLayerWithRetry_Done [of L imageRef url dest sz dg fs rs "()" fs' rs' evs] assms
    by simp
  have 2: "\<exists>rsa r f0 evsa tok. rs = rsa @ r # rs' \<and> (f0 = None \<or> f0 = Some [])
               \<and> fs' dest = written f0 r
               \<and> evs = evsa @ [BlobGet url tok None, Sleep ((maxRetries + 1) * 2)]"
    if "out = Failed (AppError ErrCodeImageDownload lastErr)" for lastErr
    using assms
  proof (cases rule: downloadLayerWithRetry_cases)
    case early
    with that show ?thesis by simp
  next
    case (auth evs1)
    with that show ?thesis by auto
  next
    case (loop tok rs1 evs1 evs2)
    from getToken_suffix [OF loop(3)] obtain used where u: "rs = used @ rs1" by blast
    from loop(4) that fetchLoop_exhausted_last
      [of L tok url dest sz dg _ rs1 "AppError ErrCodeImageDownload lastErr" fs' rs' evs2]
    obtain rsa r f0 evsa where
      "rs1 = rsa @ r # rs'" "f0 = None \<or> f0 = Some []" "fs' dest = written f0 r"
      "evs2 = evsa @ [BlobGet url tok None, Sleep ((maxRetries + 1) * 2)]"
      by blast
    with u loop(5) have "rs = (used @ rsa) @ r # rs'" "f0 = None \<or> f0 = Some []"
      "fs' dest = written f0 r"
      "evs = ((if 0 < sz \<and> getFileSize fs dest = sz then [Removed dest] else []) @ evs1 @ evsa)
               @ [BlobGet url tok None, Sleep ((maxRetries + 1) * 2)]"
      by simp_all
    then show ?thesis by blast
  qed
  have 3: "fs' dest \<noteq> None" if "fs dest \<noteq> None" "Removed dest \<notin> set evs"
    using assms
  proof (cases rule: downloadLayerWithRetry_cases)
    case early
    with that show ?thesis by simp
  next
    case (auth evs1)
    with that show ?thesis by (auto split: if_splits)
  next
    case (loop tok rs1 evs1 evs2)
    from loop(5) that(2) have nc: "\<not> (0 < sz \<and> getFileSize fs dest = sz)"
      and nr: "Removed dest \<notin> set evs2"
      by (auto split: if_splits)
    from loop(4) nc have "fetchLoop L tok url dest sz dg fs rs1 = (out, fs', rs', evs2)"
      by simp
    from fetchLoop_kept [OF this nr that(1)] show ?thesis .
  qed
  from 1 2 3 show ?thesis by blast
qed


lemma fetchLoop_truncate:
  assumes "0 < sz" and "sz < getFileSize fs dest"
  shows "fetchLoop L tok url dest sz dg fs rs
           = addEvents4 [Truncated dest] (fetchLoop L tok url dest sz dg (fs(dest \<mapsto> [])) rs)"
proof -
  let ?fs1 = "fs(dest \<mapsto> [])"
  obtain c fs2 rs2 evs2 where
    rl: "retryLoop tok url dest 0 None ?fs1 rs = (c, fs2, rs2, evs2)"
    by (metis prod_cases4)
  have g: "getFileSize ?fs1 dest = 0"
    by (simp add: getFileSize_def)
  from assms have n: "\<not> (0 < sz \<and> getFileSize fs dest = sz)"
    by simp
  from assms rl have rl1: "retryLoop tok url dest 0 None
      (if 0 < sz \<and> sz < getFileSize fs dest then fs(dest \<mapsto> []) else fs) rs = (c, fs2, rs2, evs2)"
    by simp
  from assms g have n2: "\<not> (0 < sz \<and> getFileSize ?fs1 dest = sz)"
    by simp
  from assms g rl have rl2: "retryLoop tok url dest 0 None
      (if 0 < sz \<and> sz < getFileSize ?fs1 dest then ?fs1(dest \<mapsto> []) else ?fs1) rs
      = (c, fs2, rs2, evs2)"
    by simp
  from fetchLoop_cycle [OF n rl1, of L dg] fetchLoop_cycle [OF n2 rl2, of L dg] assms g
  show ?thesis
    by (cases c; cases "fetchLoop L tok url dest sz dg fs2 rs2") simp_all
qed

lemma fetchLoop_first:
  assumes n: "\<not> (0 < sz \<and> getFileSize fs dest = sz)"
      and o: "\<not> (0 < sz \<and> sz < getFileSize fs dest)"
      and run: "fetchLoop L tok url dest sz dg fs rs = (out, fs', rs', evs)"
      and ne: "evs \<noteq> []"
  shows "hd evs = BlobGet url tok
           (if 0 < getFileSize fs dest then Some (getFileSize fs dest) else None)"
proof -
  obtain c fs2 rs2 evs2 where
    rl: "retryLoop tok url dest 0 None fs rs = (c, fs2, rs2, evs2)"
    by (metis prod_cases4)
  then have rl1: "retryLoop tok url dest 0 None
      (if 0 < sz \<and> sz < getFileSize fs dest then fs(dest \<mapsto> []) else fs) rs = (c, fs2, rs2, evs2)"
    unfolding if_not_P [OF o] .
  have "\<exists>evs0. evs = evs2 @ evs0 \<and> evs2 \<noteq> []"
  proof (cases c)
    case ChunkDownloaded
    with rl retryLoop_no_events [of tok url dest 0 None fs rs c fs2 rs2] have "evs2 \<noteq> []"
      by auto
    with fetchLoop_cycle [OF n rl1, of L dg] run o ChunkDownloaded show ?thesis
      by (auto simp: addEvents4_eq addEvents4_eq2)
  next
    case (Exhausted e)
    with fetchLoop_cycle [OF n rl1, of L dg] run o ne show ?thesis
      by auto
  next
    case Unfinished
    with fetchLoop_cycle [OF n rl1, of L dg] run o ne show ?thesis
      by auto
  qed
  then obtain evs0 where "evs = evs2 @ evs0" "evs2 \<noteq> []" by blast
  with retryLoop_first [OF rl] show ?thesis by simp
qed

lemma hd_filter: "xs \<noteq> [] \<Longrightarrow> P (hd xs) \<Longrightarrow> hd (filter P xs) = hd xs"
  by (cases xs) auto

lemma filter_auth: "\<forall>e\<in>set evs. isAuthRequest e \<Longrightarrow> filter isBlobGet evs = []"
proof (induction evs)
  case Nil
  then show ?case by simp
next
  case (Cons e evs)
  then show ?case by (cases e) auto
qed

lemma filter_not_auth: "\<forall>e\<in>set evs. isAuthRequest e \<Longrightarrow> filter (\<lambda>e. \<not> isAuthRequest e) evs = []"
  by (induction evs) auto

text \<open>
  C6. When the destination already holds N bytes, 0 < N < expectedSize, the first GET
  of the blob carries Range: bytes=N-, and a call that returns nil leaves a file of
  exactly expectedSize bytes whose digest is expectedDigest.
\<close>

theorem resume_range_request:
  assumes present: "fs dest = Some bs" and pos: "0 < length bs" and part: "int (length bs) < sz"
      and run: "downloadLayerWithRetry L imageRef url dest sz dg fs rs = (out, fs', rs', evs)"
  shows "(filter isBlobGet evs \<noteq> [] \<longrightarrow>
            (\<exists>tok. hd (filter isBlobGet evs) = BlobGet url tok (Some (int (length bs)))))
       \<and> (out = Done () \<longrightarrow>
            (\<exists>bs'. fs' dest = Some bs' \<and> int (length bs') = sz
                   \<and> ''sha256:'' @ sha256_hex L bs' = dg))"
proof -
  from present have g: "getFileSize fs dest = int (length bs)"
    by (simp add: getFileSize_def)
  with part have n: "\<not> (0 < sz \<and> getFileSize fs dest = sz)"
    and o: "\<not> (0 < sz \<and> sz < getFileSize fs dest)" by simp_all
  from run show ?thesis
  proof (cases rule: downloadLayerWithRetry_cases)
    case early
    with n show ?thesis by simp
  next
    case (auth evs1)
    with n filter_auth [of evs1] show ?thesis by auto
  next
    case (loop tok rs1 evs1 evs2)
    from loop(4) n have fl: "fetchLoop L tok url dest sz dg fs rs1 = (out, fs', rs', evs2)"
      by simp
    from loop(5,6) n filter_auth [of evs1] have f: "filter isBlobGet evs = filter isBlobGet evs2"
      by simp
    have 1: "hd (filter isBlobGet evs) = BlobGet url tok (Some (int (length bs)))"
      if "filter isBlobGet evs \<noteq> []"
    proof -
      from that f have ne: "evs2 \<noteq> []" by auto
      from fetchLoop_first [OF n o fl ne] g pos
      have h: "hd evs2 = BlobGet url tok (Some (int (length bs)))" by simp
      with hd_filter [OF ne, of isBlobGet] f show ?thesis by simp
    qed
    have 2: "\<exists>bs'. fs' dest = Some bs' \<and> int (length bs') = sz
               \<and> ''sha256:'' @ sha256_hex L bs' = dg" if "out = Done ()"
    proof -
      from fetchLoop_Done [of L tok url dest sz dg fs rs1 "()" fs' rs' evs2] fl that
      have sz: "0 < sz" and gs: "getFileSize fs' dest = sz"
        and v: "validateFileIntegrity L fs' dest dg = None" by simp_all
      from getFileSize_pos [of fs' dest] sz gs validate_None [OF v] show ?thesis by auto
    qed
    from 1 2 show ?thesis by blast
  qed
qed

text \<open>
  Every pass of the outer loop that goes on to a retry cycle starts the cycle from a file
  shorter than the expected size: a longer file has been truncated by then.
\<close>

lemma fetchLoop_cycle_start:
  assumes pos: "0 < sz" and ne: "getFileSize fs0 dest \<noteq> sz"
  shows "\<exists>fs1 evs1. getFileSize fs1 dest < sz
           \<and> fetchLoop L tok url dest sz dg fs0 rs0
               = (case retryLoop tok url dest 0 None fs1 rs0 of
                    (ChunkDownloaded, fs2, rs2, evs2) \<Rightarrow>
                      addEvents4 (evs1 @ evs2) (fetchLoop L tok url dest sz dg fs2 rs2)
                  | (Exhausted lastErr, fs2, rs2, evs2) \<Rightarrow>
                      (Failed (AppError ErrCodeImageDownload lastErr), fs2, rs2, evs1 @ evs2)
                  | (Unfinished, fs2, rs2, evs2) \<Rightarrow> (Pending, fs2, rs2, evs1 @ evs2))"
proof -
  let ?o = "0 < sz \<and> sz < getFileSize fs0 dest"
  let ?fs1 = "if ?o then fs0(dest \<mapsto> []) else fs0"
  let ?evs1 = "if ?o then [Truncated dest] else []"
  from pos ne have small: "getFileSize ?fs1 dest < sz"
    by (auto simp: getFileSize_def)
  from ne have n: "\<not> (0 < sz \<and> getFileSize fs0 dest = sz)"
    by simp
  obtain c fs2 rs2 evs2 where
    rl: "retryLoop tok url dest 0 None ?fs1 rs0 = (c, fs2, rs2, evs2)"
    by (metis prod_cases4)
  from fetchLoop_cycle [OF n rl, of L dg]
  have "fetchLoop L tok url dest sz dg fs0 rs0
      = (case retryLoop tok url dest 0 None ?fs1 rs0 of
           (ChunkDownloaded, fs2, rs2, evs2) \<Rightarrow>
             addEvents4 (?evs1 @ evs2) (fetchLoop L tok url dest sz dg fs2 rs2)
         | (Exhausted lastErr, fs2, rs2, evs2) \<Rightarrow>
             (Failed (AppError ErrCodeImageDownload lastErr), fs2, rs2, ?evs1 @ evs2)
         | (Unfinished, fs2, rs2, evs2) \<Rightarrow> (Pending, fs2, rs2, ?evs1 @ evs2))"
    unfolding rl by (cases c) (simp_all add: WrapError_def)
  with small show ?thesis by blast
qed

text \<open>
  The file found when the call starts. When it is longer than expectedSize
  (expectedSize > 0), it is truncated to zero bytes before the first GET of the blob:
  once the token is there the call goes on as from an empty file, the truncation is the
  first thing after the authentication, and the first GET carries no Range header.
\<close>

lemma oversize_truncated_first:
  assumes present: "fs dest = Some bs" and pos: "0 < sz" and over: "sz < int (length bs)"
      and run: "downloadLayerWithRetry L imageRef url dest sz dg fs rs = (out, fs', rs', evs)"
  shows "(\<forall>tok rs1 evs1. getToken L imageRef rs = (Done tok, rs1, evs1) \<longrightarrow>
            (out, fs', rs', evs)
              = addEvents4 (evs1 @ [Truncated dest])
                  (fetchLoop L tok url dest sz dg (fs(dest \<mapsto> [])) rs1))
       \<and> (filter (\<lambda>e. \<not> isAuthRequest e) evs \<noteq> [] \<longrightarrow>
            hd (filter (\<lambda>e. \<not> isAuthRequest e) evs) = Truncated dest)
       \<and> (filter isBlobGet evs \<noteq> [] \<longrightarrow>
            (\<exists>tok. hd (filter isBlobGet evs) = BlobGet url tok None))"
proof -
  from present have g: "getFileSize fs dest = int (length bs)"
    by (simp add: getFileSize_def)
  with over pos have n: "\<not> (0 < sz \<and> getFileSize fs dest = sz)"
    and o: "sz < getFileSize fs dest" by simp_all
  let ?fs1 = "fs(dest \<mapsto> [])"
  have g1: "getFileSize ?fs1 dest = 0"
    by (simp add: getFileSize_def)
  from run show ?thesis
  proof (cases rule: downloadLayerWithRetry_cases)
    case early
    with n show ?thesis by simp
  next
    case (auth evs1)
    with n filter_auth [of evs1] filter_not_auth [of evs1] show ?thesis
      by auto
  next
    case (loop tok rs1 evs1 evs2)
    from loop(4) n have "fetchLoop L tok url dest sz dg fs rs1 = (out, fs', rs', evs2)"
      by simp
    with fetchLoop_truncate [OF pos o, of L tok url dg rs1] obtain evs3 where
      fl: "fetchLoop L tok url dest sz dg ?fs1 rs1 = (out, fs', rs', evs3)"
      and e2: "evs2 = Truncated dest # evs3"
      by (auto simp: addEvents4_eq addEvents4_eq2)
    from loop(5) n e2 have evs: "evs = evs1 @ Truncated dest # evs3" by simp
    have 1: "(out, fs', rs', evs)
        = addEvents4 (evs1 @ [Truncated dest]) (fetchLoop L tok url dest sz dg ?fs1 rs1)"
      using fl evs by simp
    have 2: "hd (filter (\<lambda>e. \<not> isAuthRequest e) evs) = Truncated dest"
      using evs filter_not_auth [OF loop(6)] by simp
    have 3: "hd (filter isBlobGet evs) = BlobGet url tok None" if "filter isBlobGet evs \<noteq> []"
    proof -
      from evs filter_auth [OF loop(6)] have f: "filter isBlobGet evs = filter isBlobGet evs3"
        by simp
      with that have ne: "evs3 \<noteq> []" by auto
      from pos g1 have n1: "\<not> (0 < sz \<and> getFileSize ?fs1 dest = sz)"
        and o1: "\<not> (0 < sz \<and> sz < getFileSize ?fs1 dest)" by simp_all
      from fetchLoop_first [OF n1 o1 fl ne] g1 have "hd evs3 = BlobGet url tok None"
        by simp
      with hd_filter [OF ne, of isBlobGet] f show ?thesis by simp
    qed
    from 1 2 3 loop(3) show ?thesis by auto
  qed
qed

lemma addEvents4_addEvents4: "addEvents4 a (addEvents4 b x) = addEvents4 (a @ b) x"
  by (cases x) simp

text \<open>
  C7. The claim does not hold of the code: the size is compared with expectedSize at
  the head of the outer loop only (part_003, line 311), not before a retry. Take a
  download that starts from an empty or missing file, or from an over-long file, which
  is truncated first. When the first response (status 200) brings more than
  expectedSize bytes before it breaks off, the retry loop sleeps and makes its next
  attempt from the over-long file, with Range: bytes=<its length>-, and a 206 response
  is appended to it. No truncation precedes these new bytes; the file is truncated only
  afterwards, when the outer loop comes round.
\<close>

theorem oversize_appended_on_retry:
  assumes pos: "0 < sz" and over: "sz < int (length body)"
      and start: "getFileSize fs dest = 0 \<or> sz < getFileSize fs dest"
  shows "retryLoop tok url dest 0 None
           (if sz < getFileSize fs dest then fs(dest \<mapsto> []) else fs)
           (Response 200 h body True # Response 206 h' body' False # rs)
           = (ChunkDownloaded, fs(dest \<mapsto> body @ body'), rs,
              [BlobGet url tok None, Sleep 4, BlobGet url tok (Some (int (length body)))])
       \<and> downloadLayerWithRetry L imageRef url dest sz dg fs
           (Response 200 h0 body0 berr0
            # Response 200 h body True # Response 206 h' body' False # rs)
           = addEvents4
               (Probe (probeURL imageRef)
                # (if sz < getFileSize fs dest then [Truncated dest] else [])
                @ [BlobGet url [] None, Sleep 4, BlobGet url [] (Some (int (length body))),
                   Truncated dest])
               (fetchLoop L [] url dest sz dg (fs(dest \<mapsto> [])) rs)"
proof -
  let ?fs1 = "if sz < getFileSize fs dest then fs(dest \<mapsto> []) else fs"
  let ?fs2 = "fs(dest \<mapsto> body @ body')"
  let ?rs = "Response 200 h body True # Response 206 h' body' False # rs"
  from pos over have len: "0 < int (length body)" by linarith
  from start have empty: "getFileSize ?fs1 dest = 0"
    by (auto simp: getFileSize_def)
  have u: "?fs1(dest \<mapsto> body @ body') = ?fs2"
    by simp
  have rl: "retryLoop t url dest 0 None ?fs1 ?rs
           = (ChunkDownloaded, ?fs2, rs,
              [BlobGet url t None, Sleep 4, BlobGet url t (Some (int (length body)))])" for t
  proof -
    have "retryLoop t url dest 0 None ?fs1 ?rs
           = (ChunkDownloaded, ?fs1(dest \<mapsto> body @ body'), rs,
              [BlobGet url t None, Sleep 4, BlobGet url t (Some (int (length body)))])"
      using empty len
      by (simp add: Let_def writeResponse_def maxRetries_def getFileSize_def)
    then show ?thesis unfolding u .
  qed
  from start pos have n: "\<not> (0 < sz \<and> getFileSize fs dest = sz)" by auto
  from pos have c: "(0 < sz \<and> sz < getFileSize fs dest) = (sz < getFileSize fs dest)" by simp
  have rl': "retryLoop [] url dest 0 None
      (if 0 < sz \<and> sz < getFileSize fs dest then fs(dest \<mapsto> []) else fs) ?rs
      = (ChunkDownloaded, ?fs2, rs,
         [BlobGet url [] None, Sleep 4, BlobGet url [] (Some (int (length body)))])"
    unfolding c by (rule rl)
  have g2: "sz < getFileSize ?fs2 dest"
    using over by (simp add: getFileSize_def)
  have t: "?fs2(dest \<mapsto> []) = fs(dest \<mapsto> [])"
    by simp
  from fetchLoop_cycle [OF n rl', of L dg]
  have "fetchLoop L [] url dest sz dg fs ?rs
        = addEvents4
            ((if sz < getFileSize fs dest then [Truncated dest] else [])
             @ [BlobGet url [] None, Sleep 4, BlobGet url [] (Some (int (length body)))])
            (fetchLoop L [] url dest sz dg ?fs2 rs)"
    unfolding c by simp
  also from fetchLoop_truncate [OF pos g2, of L "[]" url dg rs]
  have "fetchLoop L [] url dest sz dg ?fs2 rs
        = addEvents4 [Truncated dest] (fetchLoop L [] url dest sz dg (fs(dest \<mapsto> [])) rs)"
    unfolding t .
  finally have fl: "fetchLoop L [] url dest sz dg fs ?rs
        = addEvents4
            ((if sz < getFileSize fs dest then [Truncated dest] else [])
             @ [BlobGet url [] None, Sleep 4, BlobGet url [] (Some (int (length body))),
                Truncated dest])
            (fetchLoop L [] url dest sz dg (fs(dest \<mapsto> [])) rs)"
    by (simp add: addEvents4_addEvents4)
  have "downloadLayerWithRetry L imageRef url dest sz dg fs
           (Response 200 h0 body0 berr0 # ?rs)
           = addEvents4
               (Probe (probeURL imageRef)
                # (if sz < getFileSize fs dest then [Truncated dest] else [])
                @ [BlobGet url [] None, Sleep 4, BlobGet url [] (Some (int (length body))),
                   Truncated dest])
               (fetchLoop L [] url dest sz dg (fs(dest \<mapsto> [])) rs)"
    unfolding downloadLayerWithRetry_no_auth [OF n] fl
    by (simp add: addEvents4_addEvents4)
  with rl [of tok] show ?thesis by blast
qed



section \<open>downloadLayerWithRetry on concrete inputs\<close>

lemmas dl_defs =
  demoFetch_def demoFile_def events_def files_def
  downloadLayerWithRetry_def getFileSize_def validateFileIntegrity_def getToken_def
  fetchLoop.simps writeResponse_def maxRetries_def probeURL_def WrapError_def
  demoLib_def demoRef_def

lemma run_collapse: "run = (fst run, files run, fst (snd (snd run)), events run)"
  by (simp add: files_def events_def)

text \<open>
  Runs of downloadLayerWithRetry: a resumed download that succeeds; a file accepted with an empty
  expectedDigest; a download that starts with no file and fails by exhaustion, the last
  attempt having written two bytes of three before the response broke off.
\<close>

theorem downloadLayerWithRetry_contract_witness:
  "fst (demoFetch 2 ''sha256:ab'' ''a'' [Response 200 [] [] False, Response 206 [] ''b'' False])
     = Done ()
   \<and> (\<exists>bs. files (demoFetch 2 ''sha256:ab'' ''a''
                    [Response 200 [] [] False, Response 206 [] ''b'' False]) ''d'' = Some bs
          \<and> int (length bs) = 2 \<and> ''sha256:'' @ sha256_hex demoLib bs = ''sha256:ab'')
   \<and> demoFile ''a'' ''d'' \<noteq> None
   \<and> Removed ''d'' \<notin> set (events (demoFetch 2 ''sha256:ab'' ''a''
                    [Response 200 [] [] False, Response 206 [] ''b'' False]))
   \<and> files (demoFetch 2 ''sha256:ab'' ''a''
                    [Response 200 [] [] False, Response 206 [] ''b'' False]) ''d'' \<noteq> None
   \<and> fst (demoFetch 2 [] ''zz'' []) = Done ()
   \<and> (\<exists>bs. files (demoFetch 2 [] ''zz'' []) ''d'' = Some bs \<and> int (length bs) = 2)
   \<and> downloadLayerWithRetry demoLib demoRef ''u'' ''d'' 3 ''sha256:abc'' Map.empty
        [Response 200 [] [] False, NetError, NetError, Response 503 [] [] False, NetError,
         Response 200 [] ''ab'' True, NetError]
       = (Failed (AppError ErrCodeImageDownload
                    (Some (AppError ErrCodeFileOperation (Some ExternalError)))),
          [''d'' \<mapsto> ''ab''], [NetError],
          [Probe ''https://reg/v2/'',
           BlobGet ''u'' [] None, Sleep 4, BlobGet ''u'' [] None, Sleep 6,
           BlobGet ''u'' [] None, Sleep 8, BlobGet ''u'' [] None, Sleep 10,
           BlobGet ''u'' [] None, Sleep 12])
   \<and> (\<exists>rsa r f0 evsa tok.
         [Response 200 [] [] False, NetError, NetError, Response 503 [] [] False, NetError,
          Response 200 [] ''ab'' True, NetError] = rsa @ r # [NetError]
       \<and> (f0 = None \<or> f0 = Some [])
       \<and> [''d'' \<mapsto> ''ab''] ''d'' = written f0 r
       \<and> [Probe ''https://reg/v2/'',
           BlobGet ''u'' [] None, Sleep 4, BlobGet ''u'' [] None, Sleep 6,
           BlobGet ''u'' [] None, Sleep 8, BlobGet ''u'' [] None, Sleep 10,
           BlobGet ''u'' [] None, Sleep 12]
          = evsa @ [BlobGet ''u'' tok None, Sleep ((maxRetries + 1) * 2)])"
proof -
  let ?r1 = "demoFetch 2 ''sha256:ab'' ''a'' [Response 200 [] [] False, Response 206 [] ''b'' False]"
  let ?r2 = "demoFetch 2 [] ''zz'' []"
  let ?rs3 = "[Response 200 [] [] False, NetError, NetError, Response 503 [] [] False, NetError,
               Response 200 [] ''ab'' True, NetError]"
  let ?evs3 = "[Probe ''https://reg/v2/'',
           BlobGet ''u'' [] None, Sleep 4, BlobGet ''u'' [] None, Sleep 6,
           BlobGet ''u'' [] None, Sleep 8, BlobGet ''u'' [] None, Sleep 10,
           BlobGet ''u'' [] None, Sleep 12]"
  have d1: "fst ?r1 = Done ()" by (simp add: dl_defs)
  have d2: "fst ?r2 = Done ()" by (simp add: dl_defs)
  have p1: "demoFile ''a'' ''d'' \<noteq> None" by (simp add: demoFile_def)
  have e1: "Removed ''d'' \<notin> set (events ?r1)" by (simp add: dl_defs)
  have r3: "downloadLayerWithRetry demoLib demoRef ''u'' ''d'' 3 ''sha256:abc'' Map.empty ?rs3
       = (Failed (AppError ErrCodeImageDownload
                    (Some (AppError ErrCodeFileOperation (Some ExternalError)))),
          [''d'' \<mapsto> ''ab''], [NetError], ?evs3)"
    by (simp add: dl_defs)
  note T1 = downloadLayerWithRetry_contract [OF run_collapse [of ?r1, unfolded demoFetch_def]]
  from T1 d1 have 1: "\<exists>bs. files ?r1 ''d'' = Some bs
          \<and> int (length bs) = 2 \<and> ''sha256:'' @ sha256_hex demoLib bs = ''sha256:ab''"
    by (simp add: demoFetch_def)
  from T1 p1 e1 have k: "files ?r1 ''d'' \<noteq> None"
    by (simp add: demoFetch_def)
  from downloadLayerWithRetry_contract [OF run_collapse [of ?r2, unfolded demoFetch_def]] d2
  have 2: "\<exists>bs. files ?r2 ''d'' = Some bs \<and> int (length bs) = 2"
    by (simp add: demoFetch_def)
  from downloadLayerWithRetry_contract [OF r3]
  have 3: "\<exists>rsa r f0 evsa tok. ?rs3 = rsa @ r # [NetError]
       \<and> (f0 = None \<or> f0 = Some [])
       \<and> [''d'' \<mapsto> ''ab''] ''d'' = written f0 r
       \<and> ?evs3 = evsa @ [BlobGet ''u'' tok None, Sleep ((maxRetries + 1) * 2)]"
    by blast
  from d1 1 p1 e1 k d2 2 r3 3 show ?thesis by blast
qed

text \<open>
  The claim C3 as stated fails: with an empty expectedDigest a file of the right size is
  accepted, and nil returned, although its digest is not the (empty) expected one.
\<close>

theorem downloadLayerWithRetry_contract_counterexample:
  "demoFetch 2 [] ''zz'' [] = (Done (), demoFile ''zz'', [], [])
   \<and> ''sha256:'' @ sha256_hex demoLib ''zz'' \<noteq> []"
  by (simp add: dl_defs)

theorem resume_range_request_witness:
  "demoFile ''a'' ''d'' = Some ''a'' \<and> 0 < length ''a'' \<and> int (length ''a'') < 2
   \<and> filter isBlobGet
        (events (demoFetch 2 ''sha256:ab'' ''a''
                   [Response 200 [] [] False, Response 206 [] ''b'' False])) \<noteq> []
   \<and> (\<exists>tok. hd (filter isBlobGet
                   (events (demoFetch 2 ''sha256:ab'' ''a''
                              [Response 200 [] [] False, Response 206 [] ''b'' False])))
              = BlobGet ''u'' tok (Some (int (length ''a''))))
   \<and> fst (demoFetch 2 ''sha256:ab'' ''a'' [Response 200 [] [] False, Response 206 [] ''b'' False])
       = Done ()
   \<and> (\<exists>bs'. files (demoFetch 2 ''sha256:ab'' ''a''
                     [Response 200 [] [] False, Response 206 [] ''b'' False]) ''d'' = Some bs'
           \<and> int (length bs') = 2 \<and> ''sha256:'' @ sha256_hex demoLib bs' = ''sha256:ab'')"
proof -
  let ?r = "demoFetch 2 ''sha256:ab'' ''a'' [Response 200 [] [] False, Response 206 [] ''b'' False]"
  have h1: "demoFile ''a'' ''d'' = Some ''a''" by (simp add: demoFile_def)
  have h2: "0 < length ''a''" by simp
  have h3: "int (length ''a'') < 2" by simp
  have g: "filter isBlobGet (events ?r) \<noteq> []" by (simp add: dl_defs)
  have d: "fst ?r = Done ()" by (simp add: dl_defs)
  from resume_range_request [OF h1 h2 h3 run_collapse [of ?r, unfolded demoFetch_def]]
    h1 h2 h3 g d
  show ?thesis by (simp add: demoFetch_def)
qed

text \<open>
  Downloads of a blob of 2 bytes. The first starts with no file: the first response
  brings the three bytes abc and breaks off; after the sleep the second attempt asks
  for the bytes from 3 on, and its 206 response is appended, so that the file holds
  abcq; only then, at the next pass of the outer loop, is the file truncated. The second
  starts from a file of three bytes, which is truncated, and goes the same way.
\<close>

theorem oversize_appended_on_retry_witness:
  "getFileSize Map.empty ''d'' = 0 \<and> 2 < getFileSize (demoFile ''zzz'') ''d''
   \<and> 2 < int (length ''abc'')
   \<and> retryLoop [] ''u'' ''d'' 0 None Map.empty
        [Response 200 [] ''abc'' True, Response 206 [] ''q'' False]
       = (ChunkDownloaded, [''d'' \<mapsto> ''abcq''], [],
          [BlobGet ''u'' [] None, Sleep 4, BlobGet ''u'' [] (Some 3)])
   \<and> downloadLayerWithRetry demoLib demoRef ''u'' ''d'' 2 ''sha256:ab'' Map.empty
        [Response 200 [] [] False, Response 200 [] ''abc'' True, Response 206 [] ''q'' False]
       = (Pending, [''d'' \<mapsto> []], [],
          [Probe ''https://reg/v2/'',
           BlobGet ''u'' [] None, Sleep 4, BlobGet ''u'' [] (Some 3), Truncated ''d''])
   \<and> demoFetch 2 ''sha256:ab'' ''zzz''
        [Response 200 [] [] False, Response 200 [] ''abc'' True, Response 206 [] ''q'' False]
       = (Pending, demoFile [], [],
          [Probe ''https://reg/v2/'', Truncated ''d'',
           BlobGet ''u'' [] None, Sleep 4, BlobGet ''u'' [] (Some 3), Truncated ''d''])"
proof -
  have h1: "(0::int) < 2" by simp
  have h2: "2 < int (length ''abc'')" by simp
  have e: "getFileSize Map.empty ''d'' = 0"
    by (simp add: getFileSize_def)
  have z: "2 < getFileSize (demoFile ''zzz'') ''d''"
    by (simp add: getFileSize_def demoFile_def)
  have f: "fetchLoop demoLib [] ''u'' ''d'' 2 ''sha256:ab'' (Map.empty(''d'' \<mapsto> [])) []
             = (Pending, [''d'' \<mapsto> []], [], [])"
    by (simp add: fetchLoop.simps getFileSize_def maxRetries_def)
  have d: "(demoFile ''zzz'')(''d'' \<mapsto> []) = [''d'' \<mapsto> []]" "demoFile [] = [''d'' \<mapsto> []]"
    by (simp_all add: demoFile_def)
  note T = oversize_appended_on_retry [OF h1 h2, where tok = "[]" and url = "''u''"
         and dest = "''d''" and h = "[]" and h' = "[]" and body' = "''q''" and rs = "[]"
         and L = demoLib and imageRef = demoRef and dg = "''sha256:ab''" and ?h0.0 = "[]"
         and ?body0.0 = "[]" and ?berr0.0 = False]
  from T [of Map.empty] e h2 f
  have 1: "retryLoop [] ''u'' ''d'' 0 None Map.empty
        [Response 200 [] ''abc'' True, Response 206 [] ''q'' False]
       = (ChunkDownloaded, [''d'' \<mapsto> ''abcq''], [],
          [BlobGet ''u'' [] None, Sleep 4, BlobGet ''u'' [] (Some 3)])
   \<and> downloadLayerWithRetry demoLib demoRef ''u'' ''d'' 2 ''sha256:ab'' Map.empty
        [Response 200 [] [] False, Response 200 [] ''abc'' True, Response 206 [] ''q'' False]
       = (Pending, [''d'' \<mapsto> []], [],
          [Probe ''https://reg/v2/'',
           BlobGet ''u'' [] None, Sleep 4, BlobGet ''u'' [] (Some 3), Truncated ''d''])"
    by (simp add: probeURL_def demoRef_def)
  from T [of "demoFile ''zzz''"] z f d
  have 2: "demoFetch 2 ''sha256:ab'' ''zzz''
        [Response 200 [] [] False, Response 200 [] ''abc'' True, Response 206 [] ''q'' False]
       = (Pending, demoFile [], [],
          [Probe ''https://reg/v2/'', Truncated ''d'',
           BlobGet ''u'' [] None, Sleep 4, BlobGet ''u'' [] (Some 3), Truncated ''d''])"
    by (simp add: probeURL_def demoRef_def demoFetch_def)
  from e z h2 1 2 show ?thesis by blast
qed



section \<open>The retry budget\<close>

lemma writeResponse_fails:
  "failsBeforeWriting (Response st h body berr) \<Longrightarrow>
     writeResponse dest fs st body berr = (Some (AppError ErrCodeNetworkError None), fs)"
  by (simp add: writeResponse_def WrapError_def)

lemma retryLoop_fail_step:
  assumes "retries < maxRetries" and "failsBeforeWriting r"
  shows "\<exists>e. retryLoop tok url dest retries lastErr fs (r # rs)
           = addEvents4
               [BlobGet url tok (if 0 < getFileSize fs dest then Some (getFileSize fs dest) else None),
                Sleep (((if 0 < getFileSize fs dest then retries else retries + 1) + 1) * 2)]
               (retryLoop tok url dest (if 0 < getFileSize fs dest then retries else retries + 1)
                  (Some e) fs rs)"
proof (cases r)
  case NetError
  with assms(1) show ?thesis
    by (intro exI [of _ "WrapError ErrCodeNetworkError (Some ExternalError)"])
       (simp add: Let_def)
next
  case (Response st h body berr)
  with assms(2) writeResponse_fails [of st h body berr dest fs] assms(1) show ?thesis
    by (intro exI [of _ "AppError ErrCodeNetworkError None"]) (simp add: Let_def)
qed

text \<open>
  A cycle during which the file stays empty and every reply fails: each attempt is
  counted, and after the attempts that the budget allows the cycle is exhausted. The
  sleep after the attempt that brings the counter to k is (k + 1) * 2 seconds.
\<close>

lemma retryLoop_exhausts:
  assumes "getFileSize fs dest = 0"
  shows "retries \<le> maxRetries \<Longrightarrow> maxRetries - retries \<le> length rs \<Longrightarrow>
         \<forall>r\<in>set (take (maxRetries - retries) rs). failsBeforeWriting r \<Longrightarrow>
         \<exists>evs le. retryLoop tok url dest retries lastErr fs rs
                  = (Exhausted le, fs, drop (maxRetries - retries) rs, evs)
              \<and> (retries < maxRetries \<or> lastErr \<noteq> None \<longrightarrow> le \<noteq> None)
              \<and> filter isBlobGet evs = replicate (maxRetries - retries) (BlobGet url tok None)
              \<and> filter isSleep evs = map (\<lambda>k. Sleep ((k + 1) * 2)) [Suc retries..<Suc maxRetries]"
proof (induction rs arbitrary: retries lastErr)
  case Nil
  then have "retries = maxRetries" by simp
  then show ?case by simp
next
  case (Cons r rs)
  show ?case
  proof (cases "retries < maxRetries")
    case False
    with Cons.prems have "retries = maxRetries" by simp
    then show ?thesis by simp
  next
    case True
    then obtain n where n: "maxRetries - retries = Suc n" "maxRetries - (retries + 1) = n"
      by (metis Suc_diff_Suc Suc_eq_plus1)
    with Cons.prems have r: "failsBeforeWriting r" by simp
    from retryLoop_fail_step [OF True r, of tok url dest lastErr fs rs] assms obtain e where
      step: "retryLoop tok url dest retries lastErr fs (r # rs)
           = addEvents4 [BlobGet url tok None, Sleep ((retries + 1 + 1) * 2)]
               (retryLoop tok url dest (retries + 1) (Some e) fs rs)"
      by auto
    from True have 1: "retries + 1 \<le> maxRetries" by simp
    from Cons.prems n have 2: "maxRetries - (retries + 1) \<le> length rs" by simp
    from Cons.prems n have 3: "\<forall>r\<in>set (take (maxRetries - (retries + 1)) rs). failsBeforeWriting r"
      by simp
    from Cons.IH [OF 1 2 3, of "Some e"] obtain evs le where
      ih: "retryLoop tok url dest (retries + 1) (Some e) fs rs
             = (Exhausted le, fs, drop (maxRetries - (retries + 1)) rs, evs)"
      "le \<noteq> None"
      "filter isBlobGet evs = replicate (maxRetries - (retries + 1)) (BlobGet url tok None)"
      "filter isSleep evs = map (\<lambda>k. Sleep ((k + 1) * 2)) [Suc (retries + 1)..<Suc maxRetries]"
      by auto
    from True have u: "[Suc retries..<Suc maxRetries] = Suc retries # [Suc (retries + 1)..<Suc maxRetries]"
      by (simp add: upt_conv_Cons)
    from step ih n u show ?thesis
      by simp
  qed
qed

text \<open>
  A cycle that starts with bytes on disk and in which every reply fails before
  writing: no attempt is counted, so the cycle goes on for as many replies as there
  are, each request a Range request, each sleep of the same length.
\<close>

lemma retryLoop_resume_events:
  assumes "0 < getFileSize fs dest" and "retries < maxRetries"
  shows "\<forall>r\<in>set rs. failsBeforeWriting r \<Longrightarrow>
         retryLoop tok url dest retries lastErr fs rs
           = (Unfinished, fs, [],
              concat (replicate (length rs)
                        [BlobGet url tok (Some (getFileSize fs dest)), Sleep ((retries + 1) * 2)]))"
proof (induction rs arbitrary: lastErr)
  case Nil
  with assms show ?case by simp
next
  case (Cons r rs)
  then have r: "failsBeforeWriting r" by simp
  from retryLoop_fail_step [OF assms(2) r, of tok url dest lastErr fs rs] assms(1) obtain e where
    step: "retryLoop tok url dest retries lastErr fs (r # rs)
         = addEvents4 [BlobGet url tok (Some (getFileSize fs dest)), Sleep ((retries + 1) * 2)]
             (retryLoop tok url dest retries (Some e) fs rs)"
    by auto
  from Cons.prems have "\<forall>r\<in>set rs. failsBeforeWriting r" by simp
  from Cons.IH [OF this, of "Some e"] step show ?case
    by simp
qed

text \<open>
  The attempts that are counted. maxRetries is 5, and it bounds the attempts of one
  cycle that find the destination empty or missing. A cycle in which the file stays
  empty and each of the first five replies fails before a byte is written (a transport
  error, or a status other than 200 and 206) makes exactly five attempts, and
  downloadLayerWithRetry then returns a non-nil error with the code
  IMAGE_DOWNLOAD_FAILED.
\<close>

lemma retry_budget_counted:
  assumes empty: "getFileSize fs dest = 0"
      and enough: "maxRetries \<le> length rs"
      and failing: "\<forall>r\<in>set (take maxRetries rs). failsBeforeWriting r"
  shows "maxRetries = 5
       \<and> length (filter isUnrangedGet (events (retryLoop tok url dest 0 None fs3 rs3))) \<le> maxRetries
       \<and> (\<exists>e evs. downloadLayerWithRetry L imageRef url dest sz dg fs (Response 200 h body berr # rs)
                    = (Failed (AppError ErrCodeImageDownload (Some e)), fs, drop maxRetries rs, evs)
                 \<and> filter isBlobGet evs = replicate maxRetries (BlobGet url [] None)
                 \<and> filter isSleep evs = map (\<lambda>k. Sleep ((k + 1) * 2)) [1..<Suc maxRetries])"
proof -
  have 1: "length (filter isUnrangedGet (events (retryLoop tok url dest 0 None fs3 rs3))) \<le> maxRetries"
    using retryLoop_budget [of tok url dest 0 None fs3 rs3
            "fst (retryLoop tok url dest 0 None fs3 rs3)"
            "files (retryLoop tok url dest 0 None fs3 rs3)"
            "fst (snd (snd (retryLoop tok url dest 0 None fs3 rs3)))"
            "events (retryLoop tok url dest 0 None fs3 rs3)"]
      run_collapse [of "retryLoop tok url dest 0 None fs3 rs3"]
    by simp
  have 2: "\<exists>e evs. downloadLayerWithRetry L imageRef url dest sz dg fs (Response 200 h body berr # rs)
                    = (Failed (AppError ErrCodeImageDownload (Some e)), fs, drop maxRetries rs, evs)
                 \<and> filter isBlobGet evs = replicate maxRetries (BlobGet url [] None)
                 \<and> filter isSleep evs = map (\<lambda>k. Sleep ((k + 1) * 2)) [1..<Suc maxRetries]"
  proof -
    from retryLoop_exhausts [OF empty, of 0 rs "[]" url None] enough failing
    obtain evs le where
      rl: "retryLoop [] url dest 0 None fs rs = (Exhausted le, fs, drop maxRetries rs, evs)"
      and le: "le \<noteq> None"
      and ev: "filter isBlobGet evs = replicate maxRetries (BlobGet url [] None)"
      and sl: "filter isSleep evs = map (\<lambda>k. Sleep ((k + 1) * 2)) [1..<Suc maxRetries]"
      by (auto simp: maxRetries_def)
    from le obtain e where e: "le = Some e" by auto
    from empty have n: "\<not> (0 < sz \<and> getFileSize fs dest = sz)" by auto
    from empty have o: "\<not> (0 < sz \<and> sz < getFileSize fs dest)" by auto
    have rl': "retryLoop [] url dest 0 None
        (if 0 < sz \<and> sz < getFileSize fs dest then fs(dest \<mapsto> []) else fs) rs
        = (Exhausted le, fs, drop maxRetries rs, evs)"
      unfolding if_not_P [OF o] by (rule rl)
    from fetchLoop_cycle [OF n rl', of L dg] empty e
    have fl: "fetchLoop L [] url dest sz dg fs rs
        = (Failed (AppError ErrCodeImageDownload (Some e)), fs, drop maxRetries rs, evs)"
      by (simp add: WrapError_def)
    have "downloadLayerWithRetry L imageRef url dest sz dg fs (Response 200 h body berr # rs)
        = (Failed (AppError ErrCodeImageDownload (Some e)), fs, drop maxRetries rs,
           Probe (probeURL imageRef) # evs)"
      unfolding downloadLayerWithRetry_no_auth [OF n] fl by simp
    with ev sl show ?thesis by simp
  qed
  from 1 2 show ?thesis by (simp add: maxRetries_def)
qed

text \<open>
  A response 200 with an empty body is a chunk downloaded, of no byte: the cycle ends
  without an error, nothing is counted, and the next cycle starts at once. Seven such
  responses in a row: seven requests, no sleep, and the call has not returned.
\<close>

lemma empty_bodies_not_counted:
  "demoFetch 2 ''sha256:ab'' []
     [Response 200 [] [] False,
      Response 200 [] [] False, Response 200 [] [] False, Response 200 [] [] False,
      Response 200 [] [] False, Response 200 [] [] False, Response 200 [] [] False,
      Response 200 [] [] False]
   = (Pending, demoFile [], [],
      [Probe ''https://reg/v2/'',
       BlobGet ''u'' [] None, BlobGet ''u'' [] None, BlobGet ''u'' [] None,
       BlobGet ''u'' [] None, BlobGet ''u'' [] None, BlobGet ''u'' [] None,
       BlobGet ''u'' [] None])"
  by (simp add: dl_defs)

text \<open>
  C5. The claim does not hold of the code: the counter of the retry loop is advanced
  only by an attempt that finds the destination empty or missing (part_003, line 338).
  From a partial file, when every reply fails before a byte is written (a transport
  error, or a status other than 200 and 206), no attempt is counted: however many such
  replies there are, the call makes as many attempts, each a Range request followed by
  a sleep of 2 seconds, and it has not returned. There is no bound of 5, the delay does
  not grow, and no error reaches the caller.
\<close>

theorem retry_not_counted_while_resuming:
  assumes partial: "0 < getFileSize fs dest" "getFileSize fs dest < sz"
      and failing: "\<forall>r\<in>set rs. failsBeforeWriting r"
  shows "downloadLayerWithRetry L imageRef url dest sz dg fs (Response 200 h body berr # rs)
           = (Pending, fs, [],
              Probe (probeURL imageRef)
              # concat (replicate (length rs)
                          [BlobGet url [] (Some (getFileSize fs dest)), Sleep 2]))"
proof -
  have m: "0 < maxRetries" by (simp add: maxRetries_def)
  from retryLoop_resume_events [OF partial(1) m failing, of "[]" url None]
  have rl: "retryLoop [] url dest 0 None fs rs
      = (Unfinished, fs, [],
         concat (replicate (length rs) [BlobGet url [] (Some (getFileSize fs dest)), Sleep 2]))"
    by simp
  from partial have n: "\<not> (0 < sz \<and> getFileSize fs dest = sz)" by auto
  from partial have o: "\<not> (0 < sz \<and> sz < getFileSize fs dest)" by auto
  have rl': "retryLoop [] url dest 0 None
      (if 0 < sz \<and> sz < getFileSize fs dest then fs(dest \<mapsto> []) else fs) rs
      = (Unfinished, fs, [],
         concat (replicate (length rs) [BlobGet url [] (Some (getFileSize fs dest)), Sleep 2]))"
    unfolding if_not_P [OF o] by (rule rl)
  from fetchLoop_cycle [OF n rl', of L dg] partial
  have fl: "fetchLoop L [] url dest sz dg fs rs
      = (Pending, fs, [],
         concat (replicate (length rs) [BlobGet url [] (Some (getFileSize fs dest)), Sleep 2]))"
    by simp
  show ?thesis
    unfolding downloadLayerWithRetry_no_auth [OF n] fl by simp
qed

text \<open>
  From a partial file of one byte of two, with the registry failing every GET of the
  blob: after seven replies seven attempts have been made, each after a sleep of 2
  seconds, and the call is still waiting to send the next.
\<close>

theorem retry_not_counted_while_resuming_witness:
  "0 < getFileSize (demoFile ''a'') ''d'' \<and> getFileSize (demoFile ''a'') ''d'' < 2
   \<and> demoFetch 2 ''sha256:ab'' ''a''
       [Response 200 [] [] False,
        NetError, NetError, Response 503 [] [] False, NetError, NetError, NetError, NetError]
     = (Pending, demoFile ''a'', [],
        [Probe ''https://reg/v2/'',
         BlobGet ''u'' [] (Some 1), Sleep 2, BlobGet ''u'' [] (Some 1), Sleep 2,
         BlobGet ''u'' [] (Some 1), Sleep 2, BlobGet ''u'' [] (Some 1), Sleep 2,
         BlobGet ''u'' [] (Some 1), Sleep 2, BlobGet ''u'' [] (Some 1), Sleep 2,
         BlobGet ''u'' [] (Some 1), Sleep 2])"
proof -
  let ?rs = "[NetError, NetError, Response 503 [] [] False, NetError, NetError, NetError, NetError]"
  have h1: "0 < getFileSize (demoFile ''a'') ''d''"
    by (simp add: getFileSize_def demoFile_def)
  have h2: "getFileSize (demoFile ''a'') ''d'' < 2"
    by (simp add: getFileSize_def demoFile_def)
  have h3: "\<forall>r\<in>set ?rs. failsBeforeWriting r"
    by simp
  have g: "getFileSize (demoFile ''a'') ''d'' = 1"
    by (simp add: getFileSize_def demoFile_def)
  from retry_not_counted_while_resuming [OF h1 h2 h3, where L = demoLib and imageRef = demoRef
         and url = "''u''" and dg = "''sha256:ab''" and h = "[]" and body = "[]" and berr = False]
    h1 h2 g
  show ?thesis
    by (simp add: demoFetch_def probeURL_def demoRef_def)
qed

section \<open>Authentication\<close>

lemma cutAt_prefix: "c \<notin> set a \<Longrightarrow> cutAt c (a @ c # b) = Some (a, b)"
  by (induction a) auto

lemma Split_single: "c \<notin> set a \<Longrightarrow> Split a c = [a]"
  by (induction a) auto

lemma Split_cons: "c \<notin> set a \<Longrightarrow> Split (a @ c # b) c = a # Split b c"
  by (induction a) auto

lemma dropWhile_quote: "q \<notin> set v \<Longrightarrow> dropWhile (\<lambda>x. x \<in> set [q]) v = v"
  by (cases v) auto

lemma Trim_quoted: "q \<notin> set v \<Longrightarrow> Trim (q # v @ [q]) [q] = v"
proof (cases v)
  case Nil
  then show ?thesis by (simp add: Trim_def)
next
  case (Cons x xs)
  assume q: "q \<notin> set v"
  with Cons have 1: "dropWhile (\<lambda>x. x \<in> set [q]) (q # v @ [q]) = v @ [q]"
    by auto
  from q have "q \<notin> set (rev v)" by simp
  from dropWhile_quote [OF this]
  have 2: "dropWhile (\<lambda>x. x \<in> set [q]) (rev (v @ [q])) = rev v"
    by simp
  show ?thesis
    unfolding Trim_def 1 2 by simp
qed

lemma addParam_param:
  "CHR ''='' \<notin> set k \<Longrightarrow> quote \<notin> set v \<Longrightarrow> addParam (param k v) m = m(k \<mapsto> v)"
  using cutAt_prefix [of "CHR ''=''" k "quote # v @ [quote]"] Trim_quoted [of quote v]
  by (simp add: addParam_def param_def SplitN2_def)

lemma comma_param:
  "CHR '','' \<notin> set k \<Longrightarrow> CHR '','' \<notin> set v \<Longrightarrow> CHR '','' \<notin> set (param k v)"
  by (simp add: param_def quote_def)

lemma SplitN2_challenge:
  "SplitN2 (challenge realm service scope) (CHR '' '')
     = [''Bearer'', param ''realm'' realm @ '','' @ param ''service'' service
          @ (case scope of None \<Rightarrow> [] | Some s \<Rightarrow> '','' @ param ''scope'' s)]"
  by (simp add: SplitN2_def challenge_def)

lemma parseAuthHeader_challenge:
  assumes "CHR '','' \<notin> set realm \<union> set service" "quote \<notin> set realm \<union> set service"
      and "\<forall>s. scope = Some s \<longrightarrow> CHR '','' \<notin> set s \<and> quote \<notin> set s"
  shows "parseAuthHeader (challenge realm service scope)
           = (case scope of
                None \<Rightarrow> [''realm'' \<mapsto> realm, ''service'' \<mapsto> service]
              | Some s \<Rightarrow> [''realm'' \<mapsto> realm, ''service'' \<mapsto> service, ''scope'' \<mapsto> s])"
proof -
  from assms have c1: "CHR '','' \<notin> set (param ''realm'' realm)"
    and c2: "CHR '','' \<notin> set (param ''service'' service)"
    by (simp_all add: comma_param)
  from assms have a1: "addParam (param ''realm'' realm) Map.empty = [''realm'' \<mapsto> realm]"
    and a2: "\<And>m. addParam (param ''service'' service) m = m(''service'' \<mapsto> service)"
    by (simp_all add: addParam_param)
  show ?thesis
  proof (cases scope)
    case None
    have "Split (param ''realm'' realm @ '','' @ param ''service'' service) (CHR '','')
            = [param ''realm'' realm, param ''service'' service]"
      using Split_cons [OF c1, of "param ''service'' service"] Split_single [OF c2] by simp
    with None a1 a2 show ?thesis
      by (simp add: parseAuthHeader_def SplitN2_challenge)
  next
    case (Some s)
    with assms have c3: "CHR '','' \<notin> set (param ''scope'' s)"
      and a3: "\<And>m. addParam (param ''scope'' s) m = m(''scope'' \<mapsto> s)"
      by (simp_all add: comma_param addParam_param)
    have "Split (param ''realm'' realm @ '','' @ param ''service'' service @ '','' @ param ''scope'' s)
            (CHR '','')
            = [param ''realm'' realm, param ''service'' service, param ''scope'' s]"
      using Split_cons [OF c1, of "param ''service'' service @ '','' @ param ''scope'' s"]
        Split_cons [OF c2, of "param ''scope'' s"] Split_single [OF c3] by simp
    with Some a1 a2 a3 show ?thesis
      by (simp add: parseAuthHeader_def SplitN2_challenge)
  qed
qed

lemma challengeURL_challenge:
  assumes "CHR '','' \<notin> set realm \<union> set service" "quote \<notin> set realm \<union> set service"
      and "\<forall>s. scope = Some s \<longrightarrow> CHR '','' \<notin> set s \<and> quote \<notin> set s \<and> s \<noteq> []"
  shows "challengeURL imageRef (challenge realm service scope)
           = tokenURL realm service (case scope of None \<Rightarrow> defaultScope imageRef | Some s \<Rightarrow> s)"
proof -
  from assms have p: "parseAuthHeader (challenge realm service scope)
           = (case scope of
                None \<Rightarrow> [''realm'' \<mapsto> realm, ''service'' \<mapsto> service]
              | Some s \<Rightarrow> [''realm'' \<mapsto> realm, ''service'' \<mapsto> service, ''scope'' \<mapsto> s])"
    by (intro parseAuthHeader_challenge) auto
  show ?thesis
  proof (cases scope)
    case None
    with p show ?thesis
      by (simp add: challengeURL_def lookup_def Let_def)
  next
    case (Some s)
    with p assms(3) show ?thesis
      by (simp add: challengeURL_def lookup_def Let_def)
  qed
qed

text \<open>A token request that is sent, and the response to it.\<close>

lemma requestToken_sent:
  "sendable L (challengeURL imageRef header) \<Longrightarrow>
     requestToken L imageRef header (Response st h body berr # rs)
       = ((if st \<noteq> 200 then Failed (AppError ErrCodeAuthError None)
           else case decode_token L body of
                  None \<Rightarrow> Failed (AppError ErrCodeAuthError (Some ExternalError))
                | Some t \<Rightarrow> Done t),
          rs, [TokenGet (challengeURL imageRef header)])"
  by (simp add: requestToken_def Let_def WrapError_def split: option.splits)

text \<open>A token request that the client does not send: no reply is used up.\<close>

lemma requestToken_refused:
  "\<not> sendable L (challengeURL imageRef header) \<Longrightarrow>
     requestToken L imageRef header rs
       = (Failed (AppError ErrCodeNetworkError (Some ExternalError)), rs, [])"
  by (simp add: requestToken_def Let_def WrapError_def)

text \<open>
  Without a realm the URL of the token request starts with a question mark: it has no
  scheme, and the client does not send it.
\<close>

lemma no_realm_not_sendable: "\<not> sendable L (tokenURL [] service scope)"
  by (simp add: sendable_def tokenURL_def getScheme_def isLetter_def toLower_def)

lemma challengeURL_no_realm:
  "lookup (parseAuthHeader header) ''realm'' = [] \<Longrightarrow>
     \<not> sendable L (challengeURL imageRef header)"
  by (simp add: challengeURL_def Let_def no_realm_not_sendable)

lemma getToken_401:
  "getToken L imageRef (Response 401 header body berr # rs)
     = addEvents [Probe (probeURL imageRef)] (requestToken L imageRef header rs)"
  by (simp add: getToken_def)

lemma downloadLayerWithRetry_auth_failed:
  assumes "fs dest = None"
      and "getToken L imageRef rs = (Failed err, rs1, evs1)"
  shows "downloadLayerWithRetry L imageRef url dest sz dg fs rs
           = (Failed (AppError ErrCodeAuthError (Some err)), fs, rs1, evs1)"
proof -
  from assms(1) have g: "getFileSize fs dest = 0"
    by (simp add: getFileSize_def)
  then have n: "\<not> (0 < sz \<and> getFileSize fs dest = sz)" by auto
  then have n2: "\<not> ((0 < sz \<and> getFileSize fs dest = sz)
            \<and> (dg = [] \<or> validateFileIntegrity L fs dest dg = None))"
    by blast
  show ?thesis
    unfolding downloadLayerWithRetry_unfold assms(2) if_not_P [OF n2] if_not_P [OF n]
    by simp
qed

text \<open>
  C9. What the authenticator returns is determined by the status of the probe. Status
  200: the empty token. Status 401 with a Bearer challenge of comma-separated
  key="value" pairs: one request to realm?service=...&scope=..., where the scope is the
  one of the challenge, or repository:<repo>:pull when the challenge has none, and the
  token decoded from the body of a 200 response; a response with another status is an
  authentication error. Any other probe status is an authentication error, and
  downloadLayerWithRetry then fails with an authentication error.

  The token request is one that the client sends (the realm is an http or https URL).
  When the header of the 401 response gives no realm the client sends nothing: the
  closure returns a network error, the next reply is not used up, and
  downloadLayerWithRetry fails with an authentication error all the same.
\<close>

theorem authenticator_result:
  assumes commas: "CHR '','' \<notin> set realm \<union> set service \<union> set scope"
      and quotes: "quote \<notin> set realm \<union> set service \<union> set scope"
      and scope: "scope \<noteq> []"
      and sent: "sendable L (tokenURL realm service scope)"
      and sent_default: "sendable L (tokenURL realm service (defaultScope imageRef))"
      and sent_header: "sendable L (challengeURL imageRef header)"
      and other: "st \<noteq> 200" "st \<noteq> 401"
      and refused: "st2 \<noteq> 200"
      and absent: "fs dest = None"
      and no_realm: "lookup (parseAuthHeader header0) ''realm'' = []"
  shows "getToken L imageRef (Response 200 h body berr # rs)
           = (Done [], rs, [Probe (probeURL imageRef)])
       \<and> getToken L imageRef
            (Response 401 (challenge realm service (Some scope)) body berr
             # Response 200 h2 body2 berr2 # rs)
           = ((case decode_token L body2 of
                 None \<Rightarrow> Failed (AppError ErrCodeAuthError (Some ExternalError))
               | Some t \<Rightarrow> Done t),
              rs,
              [Probe (probeURL imageRef),
               TokenGet (realm @ ''?service='' @ service @ ''&scope='' @ scope)])
       \<and> getToken L imageRef
            (Response 401 (challenge realm service None) body berr
             # Response 200 h2 body2 berr2 # rs)
           = ((case decode_token L body2 of
                 None \<Rightarrow> Failed (AppError ErrCodeAuthError (Some ExternalError))
               | Some t \<Rightarrow> Done t),
              rs,
              [Probe (probeURL imageRef),
               TokenGet (realm @ ''?service='' @ service @ ''&scope=''
                         @ ''repository:'' @ RepositoryStr imageRef @ '':pull'')])
       \<and> getToken L imageRef
            (Response 401 header body berr # Response st2 h2 body2 berr2 # rs)
           = (Failed (AppError ErrCodeAuthError None), rs,
              [Probe (probeURL imageRef), TokenGet (challengeURL imageRef header)])
       \<and> getToken L imageRef (Response st h body berr # rs)
           = (Failed (AppError ErrCodeAuthError None), rs, [Probe (probeURL imageRef)])
       \<and> downloadLayerWithRetry L imageRef url dest sz dg fs (Response st h body berr # rs)
           = (Failed (AppError ErrCodeAuthError (Some (AppError ErrCodeAuthError None))),
              fs, rs, [Probe (probeURL imageRef)])
       \<and> downloadLayerWithRetry L imageRef url dest sz dg fs
            (Response 401 header body berr # Response st2 h2 body2 berr2 # rs)
           = (Failed (AppError ErrCodeAuthError (Some (AppError ErrCodeAuthError None))),
              fs, rs, [Probe (probeURL imageRef), TokenGet (challengeURL imageRef header)])
       \<and> getToken L imageRef (Response 401 header0 body berr # rs)
           = (Failed (AppError ErrCodeNetworkError (Some ExternalError)), rs,
              [Probe (probeURL imageRef)])
       \<and> downloadLayerWithRetry L imageRef url dest sz dg fs
            (Response 401 header0 body berr # rs)
           = (Failed (AppError ErrCodeAuthError
                        (Some (AppError ErrCodeNetworkError (Some ExternalError)))),
              fs, rs, [Probe (probeURL imageRef)])"
proof -
  have 1: "getToken L imageRef (Response 200 h body berr # rs)
             = (Done [], rs, [Probe (probeURL imageRef)])"
    by (rule getToken_200)
  from commas quotes scope
  have u2: "challengeURL imageRef (challenge realm service (Some scope))
              = tokenURL realm service scope"
    by (subst challengeURL_challenge) simp_all
  from commas quotes
  have u3: "challengeURL imageRef (challenge realm service None)
              = tokenURL realm service (defaultScope imageRef)"
    by (subst challengeURL_challenge) simp_all
  from sent u2
  have s2: "sendable L (challengeURL imageRef (challenge realm service (Some scope)))"
    by simp
  from sent_default u3
  have s3: "sendable L (challengeURL imageRef (challenge realm service None))"
    by simp
  have 2: "getToken L imageRef
            (Response 401 (challenge realm service (Some scope)) body berr
             # Response 200 h2 body2 berr2 # rs)
           = ((case decode_token L body2 of
                 None \<Rightarrow> Failed (AppError ErrCodeAuthError (Some ExternalError))
               | Some t \<Rightarrow> Done t),
              rs,
              [Probe (probeURL imageRef),
               TokenGet (realm @ ''?service='' @ service @ ''&scope='' @ scope)])"
    unfolding getToken_401 requestToken_sent [OF s2] u2
    by (simp add: tokenURL_def)
  have 3: "getToken L imageRef
            (Response 401 (challenge realm service None) body berr
             # Response 200 h2 body2 berr2 # rs)
           = ((case decode_token L body2 of
                 None \<Rightarrow> Failed (AppError ErrCodeAuthError (Some ExternalError))
               | Some t \<Rightarrow> Done t),
              rs,
              [Probe (probeURL imageRef),
               TokenGet (realm @ ''?service='' @ service @ ''&scope=''
                         @ ''repository:'' @ RepositoryStr imageRef @ '':pull'')])"
    unfolding getToken_401 requestToken_sent [OF s3] u3
    by (simp add: tokenURL_def defaultScope_def)
  from refused
  have 4: "getToken L imageRef
             (Response 401 header body berr # Response st2 h2 body2 berr2 # rs)
           = (Failed (AppError ErrCodeAuthError None), rs,
              [Probe (probeURL imageRef), TokenGet (challengeURL imageRef header)])"
    unfolding getToken_401 requestToken_sent [OF sent_header]
    by simp
  from other
  have 5: "getToken L imageRef (Response st h body berr # rs)
           = (Failed (AppError ErrCodeAuthError None), rs, [Probe (probeURL imageRef)])"
    by (simp add: getToken_def WrapError_def)
  note 6 = downloadLayerWithRetry_auth_failed
             [where fs = fs and dest = dest and url = url and sz = sz and dg = dg, OF absent 5]
  note 7 = downloadLayerWithRetry_auth_failed
             [where fs = fs and dest = dest and url = url and sz = sz and dg = dg, OF absent 4]
  have 8: "getToken L imageRef (Response 401 header0 body berr # rs)
           = (Failed (AppError ErrCodeNetworkError (Some ExternalError)), rs,
              [Probe (probeURL imageRef)])"
    unfolding getToken_401 requestToken_refused [OF challengeURL_no_realm [OF no_realm]]
    by simp
  note 9 = downloadLayerWithRetry_auth_failed
             [where fs = fs and dest = dest and url = url and sz = sz and dg = dg, OF absent 8]
  from 1 2 3 4 5 6 7 8 9 show ?thesis by blast
qed

theorem authenticator_result_witness:
  "sendable demoLib (tokenURL ''https://auth/token'' ''registry'' ''repository:x:pull'')
   \<and> sendable demoLib (challengeURL demoRef (challenge ''https://auth/token'' ''registry'' None))
   \<and> lookup (parseAuthHeader (''Basic '' @ param ''realm'' ''Registry'')) ''realm'' = []
   \<and> getToken demoLib demoRef (Response 200 [] [] False # [])
       = (Done [], [], [Probe (probeURL demoRef)])
   \<and> getToken demoLib demoRef
        [Response 401 (challenge ''https://auth/token'' ''registry'' (Some ''repository:x:pull''))
           [] False,
         Response 200 [] ''secret'' False]
       = (Done ''secret'', [],
          [Probe ''https://reg/v2/'',
           TokenGet ''https://auth/token?service=registry&scope=repository:x:pull''])
   \<and> getToken demoLib demoRef
        [Response 401 (challenge ''https://auth/token'' ''registry'' None) [] False,
         Response 200 [] ''secret'' False]
       = (Done ''secret'', [],
          [Probe ''https://reg/v2/'',
           TokenGet ''https://auth/token?service=registry&scope=repository:repo/name:pull''])
   \<and> getToken demoLib demoRef
        [Response 401 (challenge ''https://auth/token'' ''registry'' None) [] False,
         Response 500 [] ''secret'' False]
       = (Failed (AppError ErrCodeAuthError None), [],
          [Probe ''https://reg/v2/'',
           TokenGet ''https://auth/token?service=registry&scope=repository:repo/name:pull''])
   \<and> getToken demoLib demoRef (Response 403 [] [] False # [])
       = (Failed (AppError ErrCodeAuthError None), [], [Probe (probeURL demoRef)])
   \<and> downloadLayerWithRetry demoLib demoRef ''u'' ''d'' 2 ''sha256:ab'' Map.empty
        (Response 403 [] [] False # [])
       = (Failed (AppError ErrCodeAuthError (Some (AppError ErrCodeAuthError None))),
          Map.empty, [], [Probe (probeURL demoRef)])
   \<and> getToken demoLib demoRef
        [Response 401 (''Basic '' @ param ''realm'' ''Registry'') [] False]
       = (Failed (AppError ErrCodeNetworkError (Some ExternalError)), [],
          [Probe ''https://reg/v2/''])
   \<and> downloadLayerWithRetry demoLib demoRef ''u'' ''d'' 2 ''sha256:ab'' Map.empty
        [Response 401 (''Basic '' @ param ''realm'' ''Registry'') [] False]
       = (Failed (AppError ErrCodeAuthError
                    (Some (AppError ErrCodeNetworkError (Some ExternalError)))),
          Map.empty, [], [Probe ''https://reg/v2/''])"
proof -
  let ?c = "challenge ''https://auth/token'' ''registry'' None"
  let ?b = "''Basic '' @ param ''realm'' ''Registry''"
  have h1: "CHR '','' \<notin> set ''https://auth/token'' \<union> set ''registry'' \<union> set ''repository:x:pull''"
    by simp
  have h2: "quote \<notin> set ''https://auth/token'' \<union> set ''registry'' \<union> set ''repository:x:pull''"
    by (simp add: quote_def)
  have h3: "''repository:x:pull'' \<noteq> []" by simp
  have s1: "sendable demoLib (tokenURL ''https://auth/token'' ''registry'' ''repository:x:pull'')"
    by (simp add: sendable_def tokenURL_def getScheme_def isLetter_def toLower_def demoLib_def)
  have s2: "sendable demoLib (tokenURL ''https://auth/token'' ''registry'' (defaultScope demoRef))"
    by (simp add: sendable_def tokenURL_def getScheme_def isLetter_def toLower_def demoLib_def
          defaultScope_def demoRef_def)
  have u: "challengeURL demoRef ?c
             = tokenURL ''https://auth/token'' ''registry'' (defaultScope demoRef)"
    by (subst challengeURL_challenge) (simp_all add: quote_def)
  from s2 u have s3: "sendable demoLib (challengeURL demoRef ?c)"
    by simp
  have h4: "(403::nat) \<noteq> 200" "(403::nat) \<noteq> 401" by simp_all
  have h5: "(500::nat) \<noteq> 200" by simp
  have h6: "(Map.empty :: filesystem) ''d'' = None" by simp
  have h7: "lookup (parseAuthHeader ?b) ''realm'' = []"
    by (simp add: parseAuthHeader_def SplitN2_def lookup_def param_def)
  from authenticator_result [OF h1 h2 h3 s1 s2 s3 h4 h5 h6 h7, where h = "[]" and body = "[]"
         and berr = False and rs = "[]" and ?h2.0 = "[]"
         and ?body2.0 = "''secret''" and ?berr2.0 = False
         and url = "''u''" and sz = 2 and dg = "''sha256:ab''"]
    s1 s3 h7 u
  show ?thesis
    by (simp add: demoLib_def demoRef_def probeURL_def tokenURL_def defaultScope_def)
qed

section \<open>The layers that are downloaded\<close>

lemma downloadLayer_Done:
  assumes "downloadLayer L options outputDir imageRef layer fs rs = (Done u, fs', rs', evs)"
  shows "Digest layer \<noteq> None \<and> fs' (layerFile outputDir layer) \<noteq> None
         \<and> (\<forall>p. fs p \<noteq> None \<longrightarrow> fs' p \<noteq> None)"
proof -
  from assms obtain d sz r where d: "Digest layer = Some d"
    and run: "downloadLayerWithRetry L r (blobURL r (hashString d))
                (joinPath outputDir (hashString d @ ''.tar'')) sz (hashString d) fs rs
              = (Done u, fs', rs', evs)"
    by (auto simp: downloadLayer_def split: option.splits prod.splits outcome.splits)
  from downloadLayerWithRetry_Done [OF run]
  have here: "fs' (joinPath outputDir (hashString d @ ''.tar'')) \<noteq> None"
    by auto
  have "fs' p \<noteq> None" if "fs p \<noteq> None" for p
  proof (cases "p = joinPath outputDir (hashString d @ ''.tar'')")
    case True
    with here show ?thesis by simp
  next
    case False
    from downloadLayerWithRetry_frame [OF run False] that show ?thesis by simp
  qed
  with d here show ?thesis by (simp add: layerFile_def)
qed

lemma downloadLayers_Done:
  "downloadLayers L options outputDir imageRef layers fs rs = (Done u, fs', rs', evs) \<Longrightarrow>
     (\<forall>l\<in>set layers. Digest l \<noteq> None \<and> fs' (layerFile outputDir l) \<noteq> None)
     \<and> (\<forall>p. fs p \<noteq> None \<longrightarrow> fs' p \<noteq> None)"
proof (induction layers arbitrary: fs rs evs)
  case Nil
  then show ?case by simp
next
  case (Cons layer layers)
  from Cons.prems obtain u1 fs1 rs1 evs1 evs2 where
    one: "downloadLayer L options outputDir imageRef layer fs rs = (Done u1, fs1, rs1, evs1)"
    and rest: "downloadLayers L options outputDir imageRef layers fs1 rs1 = (Done u, fs', rs', evs2)"
    by (auto simp: addEvents4_eq split: prod.splits outcome.splits)
  from downloadLayer_Done [OF one] Cons.IH [OF rest] show ?case
    by auto
qed

lemma streamDockerFormatWithReturn_files:
  assumes "streamDockerFormatWithReturn L img layers cf imageRef batch options outputDir fs rs
             = (Done (m, repos), fs', rs', evs)"
  shows "\<forall>l\<in>set layers. Digest l \<noteq> None \<and> fs' (layerFile outputDir l) \<noteq> None"
proof -
  from assms obtain u fs1 fs2 rs2 evs2 where
    dl: "downloadLayers L options outputDir imageRef layers fs1 rs = (Done u, fs2, rs2, evs2)"
    and keep: "\<forall>p. fs2 p \<noteq> None \<longrightarrow> fs' p \<noteq> None"
    unfolding streamDockerFormatWithReturn_def
    by (auto simp: Let_def split: option.splits prod.splits outcome.splits if_splits)
  from downloadLayers_Done [OF dl] keep show ?thesis by blast
qed

text \<open>
  C4, as amended. The full ordered layer list is kept unmodified for the manifest, and
  the list that is downloaded is that same full list: the digests known on the host are
  not consulted (the export is the same for every such set), and after a successful
  export the file of every layer of the image is in the output directory.
\<close>

theorem layer_plan_downloads_all:
  assumes "imgLayers img = Some layers"
      and "streamImageLayers L img existLayers outputDir options imageRef fs rs
             = (Done (m, repos), fs', rs', evs)"
  shows "streamImageLayers L img existLayers outputDir options imageRef fs rs
           = streamImageLayers L img [] outputDir options imageRef fs rs
       \<and> Layers m = map (\<lambda>l. hashString (the (Digest l)) @ ''.tar'') layers
       \<and> (\<forall>l\<in>set layers. Digest l \<noteq> None \<and> fs' (layerFile outputDir l) \<noteq> None)"
proof -
  from assms obtain cf where
    run: "streamDockerFormatWithReturn L img layers cf imageRef False options outputDir fs rs
       = (Done (m, repos), fs', rs', evs)"
    by (auto simp: streamImageLayers_def split: option.splits)
  from streamDockerFormatWithReturn_Done [OF run] obtain ds cd where
    ds: "collectDigests layers = Some ds" and m: "m = singleManifest (hashString cd) imageRef ds"
    by blast
  from collectDigests_map [OF ds] m
  have "Layers m = map (\<lambda>l. hashString (the (Digest l)) @ ''.tar'') layers"
    by (simp add: singleManifest_def comp_def)
  with streamDockerFormatWithReturn_files [OF run] show ?thesis
    by (simp add: streamImageLayers_def)
qed

theorem layer_plan_downloads_all_witness:
  "imgLayers demoImage = Some demoLayers
   \<and> fst (streamImageLayers demoLib demoImage [''aa''] ''output'' demoOptions ''repo/name:v1''
            Map.empty
            [Response 200 [] [] False, Response 200 [] ''aa'' False,
             Response 200 [] [] False, Response 200 [] ''b'' False])
       = Done (\<lparr> Config = ''sha256:cc.json'', RepoTags = [''repo/name:v1''],
                 Layers = [''sha256:aa.tar'', ''sha256:b.tar''] \<rparr>,
               [(''repo/name'', [(''v1'', ''sha256:cc'')])])
   \<and> streamImageLayers demoLib demoImage [''aa''] ''output'' demoOptions ''repo/name:v1''
        Map.empty
        [Response 200 [] [] False, Response 200 [] ''aa'' False,
         Response 200 [] [] False, Response 200 [] ''b'' False]
       = streamImageLayers demoLib demoImage [] ''output'' demoOptions ''repo/name:v1''
           Map.empty
           [Response 200 [] [] False, Response 200 [] ''aa'' False,
            Response 200 [] [] False, Response 200 [] ''b'' False]
   \<and> files (streamImageLayers demoLib demoImage [''aa''] ''output'' demoOptions ''repo/name:v1''
              Map.empty
              [Response 200 [] [] False, Response 200 [] ''aa'' False,
               Response 200 [] [] False, Response 200 [] ''b'' False])
         ''output/sha256:aa.tar'' \<noteq> None
   \<and> files (streamImageLayers demoLib demoImage [''aa''] ''output'' demoOptions ''repo/name:v1''
              Map.empty
              [Response 200 [] [] False, Response 200 [] ''aa'' False,
               Response 200 [] [] False, Response 200 [] ''b'' False])
         ''output/sha256:b.tar'' \<noteq> None"
proof -
  let ?run = "streamImageLayers demoLib demoImage [''aa''] ''output'' demoOptions ''repo/name:v1''
                Map.empty
                [Response 200 [] [] False, Response 200 [] ''aa'' False,
                 Response 200 [] [] False, Response 200 [] ''b'' False]"
  let ?m = "\<lparr> Config = ''sha256:cc.json'', RepoTags = [''repo/name:v1''],
              Layers = [''sha256:aa.tar'', ''sha256:b.tar''] \<rparr>"
  have l: "imgLayers demoImage = Some demoLayers"
    by (simp add: demoImage_def)
  have r: "fst ?run = Done (?m, [(''repo/name'', [(''v1'', ''sha256:cc'')])])"
    by (simp add: run_defs)
  then have c: "?run = (Done (?m, [(''repo/name'', [(''v1'', ''sha256:cc'')])]),
                        files ?run, fst (snd (snd ?run)), events ?run)"
    using run_collapse [of ?run] by simp
  note T = layer_plan_downloads_all [OF l c]
  from T have 1: "?run = streamImageLayers demoLib demoImage [] ''output'' demoOptions
                           ''repo/name:v1'' Map.empty
                           [Response 200 [] [] False, Response 200 [] ''aa'' False,
                            Response 200 [] [] False, Response 200 [] ''b'' False]"
    by (rule conjunct1)
  from T have "\<forall>l\<in>set demoLayers. Digest l \<noteq> None \<and> files ?run (layerFile ''output'' l) \<noteq> None"
    by blast
  then have 2: "files ?run ''output/sha256:aa.tar'' \<noteq> None"
    and 3: "files ?run ''output/sha256:b.tar'' \<noteq> None"
    by (simp_all add: demoLayers_def layerFile_def joinPath_def hashString_def)
  from l r 1 2 3 show ?thesis by blast
qed

text \<open>
  The claim C4 as stated fails: the host knows the digest aa, so the subset to download
  would be the second layer alone, yet the blob of the layer aa is requested too.
\<close>

theorem layer_plan_subset_counterexample:
  "events (streamImageLayers demoLib demoImage [''aa''] ''output'' demoOptions ''repo/name:v1''
            Map.empty
            [Response 200 [] [] False, Response 200 [] ''aa'' False,
             Response 200 [] [] False, Response 200 [] ''b'' False])
     = [Probe ''https://reg/v2/'',
        BlobGet ''https://reg/v2/repo/name/blobs/sha256:aa'' [] None,
        Probe ''https://reg/v2/'',
        BlobGet ''https://reg/v2/repo/name/blobs/sha256:b'' [] None]
   \<and> filterExisting [''aa''] demoLayers
       = [\<lparr> Digest = Some \<lparr> Algorithm = ''sha256'', Hex = ''b'' \<rparr>, Size = Some 1,
            UncompressedSize = Some 5 \<rparr>]"
  by (simp add: run_defs events_def filterExisting_def)

end
